theory Spec2Isabelle
  imports Complex_Main
begin

section \<open>Python built-ins used by \<^verbatim>\<open>app/parse.py\<close>\<close>

text \<open>
  A Python \<^verbatim>\<open>str\<close> is modelled as a \<^typ>\<open>string\<close> whose characters stand for the
  code points U+0000..U+00FF, one character per code point; the non-breaking space
  \<^verbatim>\<open>"\xa0"\<close> is \<^term>\<open>CHR 0xA0\<close>. On this range the decimal digits are the ASCII digits and
  \<^verbatim>\<open>str.isspace\<close> holds for the twelve characters listed in \<open>py_isspace\<close>.
\<close>

definition py_isspace :: "char \<Rightarrow> bool" where
  "py_isspace c = (c \<in> set [CHR 0x09, CHR 0x0A, CHR 0x0B, CHR 0x0C, CHR 0x0D,
       CHR 0x1C, CHR 0x1D, CHR 0x1E, CHR 0x1F, CHR 0x20, CHR 0x85, CHR 0xA0])"

text \<open>\<^verbatim>\<open>s.strip()\<close>: leading and trailing whitespace removed.\<close>

definition py_strip :: "string \<Rightarrow> string" where
  "py_strip s = rev (dropWhile py_isspace (rev (dropWhile py_isspace s)))"

text \<open>\<^verbatim>\<open>s.replace(old, new)\<close> for a pattern \<open>old\<close> of one character.\<close>

definition py_replace :: "char \<Rightarrow> string \<Rightarrow> string \<Rightarrow> string" where
  "py_replace old new s = concat (map (\<lambda>c. if c = old then new else [c]) s)"

text \<open>
  \<^verbatim>\<open>s.split(sep)\<close> for a separator of one character: the pieces between the
  occurrences of \<open>sep\<close>, empty pieces kept; the result is never empty.
\<close>

fun py_split :: "char \<Rightarrow> string \<Rightarrow> string list" where
  "py_split sep [] = [[]]"
| "py_split sep (c # cs) =
     (if c = sep then [] # py_split sep cs
      else (case py_split sep cs of
              [] \<Rightarrow> [[c]]
            | w # ws \<Rightarrow> (c # w) # ws))"

definition is_digit :: "char \<Rightarrow> bool" where
  "is_digit c = (c \<in> set ''0123456789'')"

definition digit_val :: "char \<Rightarrow> nat" where
  "digit_val c = of_char c - of_char CHR ''0''"

text \<open>The number a digit string denotes, most significant digit first.\<close>

definition digits_val :: "string \<Rightarrow> nat" where
  "digits_val ds = foldl (\<lambda>acc c. 10 * acc + digit_val c) 0 ds"

text \<open>
  Numeric literals may group digits with single underscores: an underscore is allowed
  only directly between two digits. \<open>underscores_ok prev s\<close> reads \<open>s\<close> with \<open>prev\<close>
  telling whether the character before it was a digit.
\<close>

fun underscores_ok :: "bool \<Rightarrow> string \<Rightarrow> bool" where
  "underscores_ok prev [] = True"
| "underscores_ok prev (c # cs) =
     (if c = CHR ''_''
      then prev \<and> (case cs of [] \<Rightarrow> False | d # _ \<Rightarrow> is_digit d) \<and> underscores_ok False cs
      else underscores_ok (is_digit c) cs)"

text \<open>An optional sign in front of a literal: whether it is negative, and the rest.\<close>

definition split_sign :: "string \<Rightarrow> bool \<times> string" where
  "split_sign s =
     (case s of
        [] \<Rightarrow> (False, [])
      | c # cs \<Rightarrow> if c = CHR ''-'' then (True, cs)
                 else if c = CHR ''+'' then (False, cs)
                 else (False, s))"

text \<open>
  The interpreter's limit on the length of a decimal numeral that \<^verbatim>\<open>int\<close> converts,
  \<^verbatim>\<open>sys.get_int_max_str_digits()\<close>, at its default. The digits are counted, leading zeros
  among them; the sign, the underscores and the surrounding whitespace are not.
\<close>

definition INT_MAX_STR_DIGITS :: nat where
  "INT_MAX_STR_DIGITS = 4300"

text \<open>
  \<^verbatim>\<open>int(s)\<close> on a string, base ten: surrounding whitespace is ignored, then an optional
  sign and at least one digit must make up the whole text, and there must be no more
  digits than the limit allows. \<open>None\<close> is the \<^verbatim>\<open>ValueError\<close>.
\<close>

definition py_int :: "string \<Rightarrow> int option" where
  "py_int s =
     (let t = py_strip s in
      if \<not> underscores_ok False t then None
      else
        let (neg, body) = split_sign (filter (\<lambda>c. c \<noteq> CHR ''_'') t) in
        if body \<noteq> [] \<and> list_all is_digit body \<and> length body \<le> INT_MAX_STR_DIGITS
        then Some (if neg then - int (digits_val body) else int (digits_val body))
        else None)"

text \<open>
  A Python \<^verbatim>\<open>float\<close>. A finite value is kept as the exact rational the literal denotes;
  the rounding to binary64 that the interpreter applies afterwards is not modelled.
  \<open>Infinite neg\<close> is minus infinity when \<open>neg\<close> holds.
\<close>

datatype pyfloat = Finite rat | Infinite bool | NaN

definition ascii_lower :: "char \<Rightarrow> char" where
  "ascii_lower c =
     (case map_of (zip ''ABCDEFGHIJKLMNOPQRSTUVWXYZ'' ''abcdefghijklmnopqrstuvwxyz'') c of
        None \<Rightarrow> c
      | Some l \<Rightarrow> l)"

text \<open>The value \<open>m\<close> times ten to the power \<open>e\<close>.\<close>

definition scale10 :: "nat \<Rightarrow> int \<Rightarrow> rat" where
  "scale10 m e = (if 0 \<le> e then of_nat m * 10 ^ nat e else of_nat m / 10 ^ nat (- e))"

text \<open>
  The exponent part that may follow the mantissa: nothing, or \<^verbatim>\<open>e\<close>/\<^verbatim>\<open>E\<close>, an optional
  sign and at least one digit, up to the end of the text.
\<close>

definition float_exponent :: "string \<Rightarrow> int option" where
  "float_exponent r =
     (case r of
        [] \<Rightarrow> Some 0
      | c # r' \<Rightarrow>
          if c = CHR ''e'' \<or> c = CHR ''E''
          then (let (eneg, ed) = split_sign r' in
                if ed \<noteq> [] \<and> list_all is_digit ed
                then Some (if eneg then - int (digits_val ed) else int (digits_val ed))
                else None)
          else None)"

text \<open>
  An unsigned decimal literal: digits, an optional point with more digits, at least one
  digit in all, and an optional exponent.
\<close>

definition float_decimal :: "string \<Rightarrow> rat option" where
  "float_decimal body =
     (let ip = takeWhile is_digit body;
          r1 = dropWhile is_digit body;
          (fp, r2) = (case r1 of
                        [] \<Rightarrow> ([], r1)
                      | c # r \<Rightarrow> if c = CHR ''.''
                                then (takeWhile is_digit r, dropWhile is_digit r)
                                else ([], r1))
      in if ip = [] \<and> fp = [] then None
         else (case float_exponent r2 of
                 None \<Rightarrow> None
               | Some e \<Rightarrow> Some (scale10 (digits_val (ip @ fp)) (e - int (length fp)))))"

text \<open>
  \<^verbatim>\<open>float(s)\<close> on a string: surrounding whitespace is ignored; then an optional sign and
  either \<^verbatim>\<open>inf\<close>, \<^verbatim>\<open>infinity\<close> or \<^verbatim>\<open>nan\<close> in any letter case, or a decimal literal.
  \<open>None\<close> is the \<^verbatim>\<open>ValueError\<close>.
\<close>

definition py_float :: "string \<Rightarrow> pyfloat option" where
  "py_float s =
     (let t = py_strip s in
      if \<not> underscores_ok False t then None
      else
        let (neg, body) = split_sign (filter (\<lambda>c. c \<noteq> CHR ''_'') t);
            low = map ascii_lower body
        in if low = ''inf'' \<or> low = ''infinity'' then Some (Infinite neg)
           else if low = ''nan'' then Some NaN
           else (case float_decimal body of
                   None \<Rightarrow> None
                 | Some v \<Rightarrow> Some (Finite (if neg then - v else v))))"

text \<open>\<^verbatim>\<open>str(n)\<close> for a natural number \<open>n\<close>: its decimal numeral.\<close>

fun decimal :: "nat \<Rightarrow> string" where
  "decimal n =
     (if n < 10 then [''0123456789'' ! n]
      else decimal (n div 10) @ [''0123456789'' ! (n mod 10)])"

declare decimal.simps [simp del]

section \<open>Parsed markup\<close>

text \<open>
  The tree that \<^verbatim>\<open>BeautifulSoup(markup, "html.parser")\<close> builds: a node is a piece of
  text or a tag with its name (in lower case, as the parser stores it), the list of its
  classes (the \<^verbatim>\<open>class\<close> attribute split at whitespace), its other attributes and
  its children in document order. The document itself is a tag named \<^verbatim>\<open>[document]\<close>.
\<close>

datatype node =
    Text string
  | Tag (name: string) (classes: "string list") (attrs: "string \<rightharpoonup> string") (contents: "node list")

text \<open>The \<^verbatim>\<open>.text\<close> property: all text below a node, in document order.\<close>

fun text_of :: "node \<Rightarrow> string" where
  "text_of (Text s) = s"
| "text_of (Tag n cl a cs) = concat (map text_of cs)"

fun has_class :: "string \<Rightarrow> node \<Rightarrow> bool" where
  "has_class c (Text s) = False"
| "has_class c (Tag n cl a cs) = (c \<in> set cl)"

fun is_tag :: "string \<Rightarrow> node \<Rightarrow> bool" where
  "is_tag t (Text s) = False"
| "is_tag t (Tag n cl a cs) = (n = t)"

text \<open>
  The two forms of CSS selector the program uses: \<^verbatim>\<open>.c\<close> (an element of class \<open>c\<close>)
  and \<^verbatim>\<open>t > .c\<close> (an element of class \<open>c\<close> whose parent is a \<open>t\<close> element).
\<close>

datatype selector = Class string | ChildOf string string

fun matches :: "selector \<Rightarrow> node \<Rightarrow> node \<Rightarrow> bool" where
  "matches (Class c) parent el = has_class c el"
| "matches (ChildOf t c) parent el = (is_tag t parent \<and> has_class c el)"

text \<open>Every node strictly below a node, paired with its parent, in document order.\<close>

fun descendants :: "node \<Rightarrow> (node \<times> node) list" where
  "descendants (Text s) = []"
| "descendants (Tag n cl a cs) = concat (map (\<lambda>c. (Tag n cl a cs, c) # descendants c) cs)"

text \<open>
  \<^verbatim>\<open>soup.select(sel)\<close>: the elements below \<open>soup\<close> that match, in document order, and
  \<^verbatim>\<open>soup.select_one(sel)\<close>: the first of them, or \<^verbatim>\<open>None\<close>.
\<close>

definition select :: "node \<Rightarrow> selector \<Rightarrow> node list" where
  "select soup sel = map snd (filter (\<lambda>(parent, el). matches sel parent el) (descendants soup))"

definition select_one :: "node \<Rightarrow> selector \<Rightarrow> node option" where
  "select_one soup sel = (case select soup sel of [] \<Rightarrow> None | el # _ \<Rightarrow> Some el)"

section \<open>The record model and the extractors\<close>

text \<open>
  The exceptions the program can raise. A \<^verbatim>\<open>ValueError\<close> carries the conversion
  that rejected a text, and the text, as its message does. The last three come from
  the operating system when a file is opened or written; \<^verbatim>\<open>OSError\<close> carries its
  message.
\<close>

datatype conversion = ToFloat | ToInt

datatype error =
    TypeError
  | AttributeError
  | KeyError string
  | IndexError
  | ValueError conversion string
  | WebDriverException string
  | IsADirectoryError
  | PermissionError
  | OSError string

record Product =
  title :: string
  description :: string
  price :: pyfloat
  rating :: int
  num_of_reviews :: int

text \<open>
  \<^verbatim>\<open>parse_single_product\<close>, statement by statement. Subscripting \<^verbatim>\<open>None\<close> raises
  \<^verbatim>\<open>TypeError\<close>, reading \<^verbatim>\<open>.text\<close> of \<^verbatim>\<open>None\<close> raises \<^verbatim>\<open>AttributeError\<close>, a missing
  attribute raises \<^verbatim>\<open>KeyError\<close>.
\<close>

definition parse_single_product :: "node \<Rightarrow> error + Product" where
  "parse_single_product product_soup =
     (case select_one product_soup (Class ''title'') of
        None \<Rightarrow> Inl TypeError
      | Some title_el \<Rightarrow>
     (case attrs title_el ''title'' of
        None \<Rightarrow> Inl (KeyError ''title'')
      | Some title' \<Rightarrow>
     (case select_one product_soup (Class ''description'') of
        None \<Rightarrow> Inl AttributeError
      | Some description_el \<Rightarrow>
     (let description' = py_strip (py_replace (CHR 0xA0) '' '' (text_of description_el)) in
     (case select_one product_soup (Class ''price'') of
        None \<Rightarrow> Inl AttributeError
      | Some price_el \<Rightarrow>
     (let price_text = py_strip (py_replace CHR ''$'' [] (text_of price_el)) in
     (case py_float price_text of
        None \<Rightarrow> Inl (ValueError ToFloat price_text)
      | Some price' \<Rightarrow>
     (let rating' = int (length (select product_soup (ChildOf ''p'' ''ws-icon-star''))) in
     (case select_one product_soup (Class ''review-count'') of
        None \<Rightarrow> Inl AttributeError
      | Some review_el \<Rightarrow>
     (case py_split CHR '' '' (text_of review_el) of
        [] \<Rightarrow> Inl IndexError
      | first # _ \<Rightarrow>
     (case py_int (py_strip first) of
        None \<Rightarrow> Inl (ValueError ToInt (py_strip first))
      | Some num_of_reviews' \<Rightarrow>
          Inr \<lparr>title = title', description = description', price = price',
               rating = rating', num_of_reviews = num_of_reviews'\<rparr>)))))))))))"

text \<open>
  A list comprehension over a function that may raise: the results in order, or the
  first exception.
\<close>

fun comprehension :: "('a \<Rightarrow> error + 'b) \<Rightarrow> 'a list \<Rightarrow> error + 'b list" where
  "comprehension f [] = Inr []"
| "comprehension f (x # xs) =
     (case f x of
        Inl e \<Rightarrow> Inl e
      | Inr y \<Rightarrow> (case comprehension f xs of
                   Inl e \<Rightarrow> Inl e
                 | Inr ys \<Rightarrow> Inr (y # ys)))"

definition parse_product_page :: "node \<Rightarrow> error + Product list" where
  "parse_product_page page_soup =
     (let products_soup = select page_soup (Class ''thumbnail'')
      in comprehension parse_single_product products_soup)"

section \<open>The category URLs\<close>

text \<open>
  \<^verbatim>\<open>urljoin(base, ref)\<close> for the references the program joins: a relative path without
  dot segments, joined to a base whose path ends in a segment or a slash. The base is
  cut after its last slash and the reference appended.
\<close>

definition urljoin :: "string \<Rightarrow> string \<Rightarrow> string" where
  "urljoin base ref = rev (dropWhile (\<lambda>c. c \<noteq> CHR ''/'') (rev base)) @ ref"

definition BASE_URL :: string where
  "BASE_URL = ''https://webscraper.io/''"

definition HOME_URL :: string where
  "HOME_URL = urljoin BASE_URL ''test-sites/e-commerce/more/''"

definition COMPUTERS_URL :: string where
  "COMPUTERS_URL = urljoin HOME_URL ''computers/''"

definition LAPTOPS_URL :: string where
  "LAPTOPS_URL = urljoin COMPUTERS_URL ''laptops''"

definition TABLETS_URL :: string where
  "TABLETS_URL = urljoin COMPUTERS_URL ''tablets''"

definition PHONES_URL :: string where
  "PHONES_URL = urljoin HOME_URL ''phones/''"

definition TOUCH_URL :: string where
  "TOUCH_URL = urljoin PHONES_URL ''touch''"

section \<open>The browser, the site and the files\<close>

text \<open>
  What the remote site does is a parameter of the model. For every URL it tells
  \<^item> whether \<^verbatim>\<open>driver.get\<close> returns (\<open>None\<close>) or raises a \<^verbatim>\<open>WebDriverException\<close>
    with a message;
  \<^item> how the body of the \<^verbatim>\<open>try\<close> in \<^verbatim>\<open>accept_cookies\<close> ends;
  \<^item> how the body of the \<^verbatim>\<open>try\<close> in \<^verbatim>\<open>more_button\<close> ends when the page has been
    expanded \<open>k\<close> times already: the wait for the control, the click and the wait for a
    thumbnail all return, or one of them raises \<^verbatim>\<open>TimeoutException\<close>, or one of them
    raises another exception;
  \<^item> the parsed \<^verbatim>\<open>driver.page_source\<close> after \<open>k\<close> expansions.
\<close>

datatype cookie_attempt = CookieClicked | CookieInteractionError string | CookieWebDriverError string

datatype attempt = Completes | RaisesTimeout | RaisesOther string

record site_page =
  navigation :: "string option"
  cookie_banner :: cookie_attempt
  load_more :: "nat \<Rightarrow> attempt"
  page_source :: "nat \<Rightarrow> node"

type_synonym site = "string \<Rightarrow> site_page"

text \<open>A cell of a CSV row, as handed to \<^verbatim>\<open>csv.writer\<close>.\<close>

datatype cell = StrCell string | FloatCell pyfloat | IntCell int

type_synonym csv_row = "cell list"

text \<open>
  What a path names: a directory, or a regular file, which the process may write to or
  not and which holds rows. Every \<^verbatim>\<open>writerow\<close> writes at least a line terminator, so a
  file has size zero exactly when it holds no row.
\<close>

datatype entry = Directory | RegularFile (is_writable: bool) (file_rows: "csv_row list")

text \<open>
  The state the program acts on: the page the browser shows and how often it has been
  expanded, how many browser sessions were created and how many were quit, the lines
  printed, what the paths name, whether the process may create a file that does not
  exist yet, and whether the device has room for more data.
\<close>

record state =
  current_url :: string
  expansions :: nat
  sessions :: nat
  quits :: nat
  stdout :: "string list"
  files :: "string \<rightharpoonup> entry"
  can_create :: bool
  space_left :: bool

definition print :: "string \<Rightarrow> state \<Rightarrow> state" where
  "print line st = st\<lparr>stdout := stdout st @ [line]\<rparr>"

definition accept_cookies :: "site \<Rightarrow> state \<Rightarrow> state" where
  "accept_cookies web st =
     (case cookie_banner (web (current_url st)) of
        CookieClicked \<Rightarrow> st
      | CookieInteractionError e \<Rightarrow>
          print (''Error interacting with the cookie accept button: '' @ e) st
      | CookieWebDriverError e \<Rightarrow>
          print (''WebDriver exception occurred: '' @ e) st)"

definition more_button :: "site \<Rightarrow> state \<Rightarrow> bool \<times> state" where
  "more_button web st =
     (case load_more (web (current_url st)) (expansions st) of
        Completes \<Rightarrow> (True, st\<lparr>expansions := Suc (expansions st)\<rparr>)
      | RaisesTimeout \<Rightarrow>
          (False, print ''Timeout waiting for more button to be clickable.'' st)
      | RaisesOther e \<Rightarrow>
          (False, print (''Error clicking more button: '' @ e) st))"

text \<open>The loop \<^verbatim>\<open>while more_button(driver): pass\<close>; \<open>None\<close> when it never ends.\<close>

partial_function (option) more_button_loop :: "site \<Rightarrow> state \<Rightarrow> state option" where
  "more_button_loop web st =
     (let (again, st') = more_button web st
      in if again then more_button_loop web st' else Some st')"

text \<open>
  A call of the program either does not return (\<open>None\<close>), or returns a value or raises
  an exception, in a new state.
\<close>

type_synonym 'a outcome = "((error + 'a) \<times> state) option"

definition scrape_products :: "site \<Rightarrow> string \<Rightarrow> state \<Rightarrow> Product list outcome" where
  "scrape_products web url st =
     (case navigation (web url) of
        Some msg \<Rightarrow> Some (Inl (WebDriverException msg), st)
      | None \<Rightarrow>
          (let st1 = st\<lparr>current_url := url, expansions := 0\<rparr>;
               st2 = accept_cookies web st1
           in case more_button_loop web st2 of
                None \<Rightarrow> None
              | Some st3 \<Rightarrow>
                  (let page_soup = page_source (web (current_url st3)) (expansions st3)
                   in Some (parse_product_page page_soup, st3))))"

definition product_row :: "Product \<Rightarrow> csv_row" where
  "product_row product =
     [StrCell (title product), StrCell (description product), FloatCell (price product),
      IntCell (rating product), IntCell (num_of_reviews product)]"

text \<open>\<^verbatim>\<open>os.path.isfile(path)\<close>: whether the path names a regular file.\<close>

definition isfile :: "state \<Rightarrow> string \<Rightarrow> bool" where
  "isfile st path =
     (case files st path of
        None \<Rightarrow> False
      | Some Directory \<Rightarrow> False
      | Some (RegularFile w rs) \<Rightarrow> True)"

text \<open>
  \<^verbatim>\<open>open(path, "a", newline="")\<close>: a directory cannot be opened, a file that exists must
  be writable, and a file that does not exist is created, empty, if the process may
  create it.
\<close>

definition open_append :: "string \<Rightarrow> state \<Rightarrow> error + state" where
  "open_append path st =
     (case files st path of
        None \<Rightarrow>
          if can_create st then Inr (st\<lparr>files := (files st)(path \<mapsto> RegularFile True [])\<rparr>)
          else Inl PermissionError
      | Some Directory \<Rightarrow> Inl IsADirectoryError
      | Some (RegularFile w rs) \<Rightarrow> if w then Inr st else Inl PermissionError)"

text \<open>
  The \<^verbatim>\<open>writerow\<close> calls of one \<^verbatim>\<open>with\<close> block on the file opened at \<open>path\<close>, up to the
  close of the file at the end of the block: the rows are added at the end of the file.
  If there is something to write and the device has no room, \<^verbatim>\<open>OSError\<close> is raised; the
  file is then taken to be as it was when opened (a partial write is not modelled).
\<close>

definition write_rows :: "string \<Rightarrow> csv_row list \<Rightarrow> state \<Rightarrow> error + state" where
  "write_rows path new_rows st =
     (if new_rows = [] then Inr st
      else if \<not> space_left st then Inl (OSError ''No space left on device'')
      else (case files st path of
              None \<Rightarrow> Inr st
            | Some Directory \<Rightarrow> Inr st
            | Some (RegularFile w rs) \<Rightarrow>
                Inr (st\<lparr>files := (files st)(path \<mapsto> RegularFile w (rs @ new_rows))\<rparr>)))"

text \<open>
  \<^verbatim>\<open>save_products_to_csv\<close>. \<^verbatim>\<open>os.stat\<close> is called only on a path that \<^verbatim>\<open>os.path.isfile\<close>
  has just found to be a regular file, so it returns. The header row and the product
  rows are written in this order.
\<close>

definition save_products_to_csv :: "Product list \<Rightarrow> string \<Rightarrow> state \<Rightarrow> unit outcome" where
  "save_products_to_csv products output_csv_path st =
     (let file_exists = isfile st output_csv_path;
          is_file_empty = (if file_exists
                           then (case files st output_csv_path of
                                   None \<Rightarrow> True
                                 | Some Directory \<Rightarrow> True
                                 | Some (RegularFile w rs) \<Rightarrow> rs = [])
                           else True)
      in case open_append output_csv_path st of
           Inl e \<Rightarrow> Some (Inl e, st)
         | Inr st1 \<Rightarrow>
             (let header_rows =
                    (if \<not> file_exists \<or> is_file_empty
                     then [[StrCell ''title'', StrCell ''description'', StrCell ''price'',
                            StrCell ''rating'', StrCell ''num_of_reviews'']]
                     else [])
              in case write_rows output_csv_path (header_rows @ map product_row products) st1 of
                   Inl e \<Rightarrow> Some (Inl e, st1)
                 | Inr st2 \<Rightarrow> Some (Inr (), st2)))"

text \<open>Sequencing: the next statement runs only if the call returned a value.\<close>

definition and_then :: "'a outcome \<Rightarrow> ('a \<Rightarrow> state \<Rightarrow> 'b outcome) \<Rightarrow> 'b outcome" where
  "and_then m f =
     (case m of
        None \<Rightarrow> None
      | Some (Inl e, st) \<Rightarrow> Some (Inl e, st)
      | Some (Inr x, st) \<Rightarrow> f x st)"

text \<open>The body of the \<^verbatim>\<open>try\<close> statement of \<^verbatim>\<open>get_all_products\<close>.\<close>

definition get_all_products_try :: "site \<Rightarrow> state \<Rightarrow> unit outcome" where
  "get_all_products_try web st0 =
     and_then (scrape_products web HOME_URL st0) (\<lambda>products_home st1.
     and_then (scrape_products web COMPUTERS_URL st1) (\<lambda>products_computers st2.
     and_then (scrape_products web LAPTOPS_URL st2) (\<lambda>products_laptops st3.
     and_then (scrape_products web TABLETS_URL st3) (\<lambda>products_tablets st4.
     and_then (scrape_products web PHONES_URL st4) (\<lambda>products_phones st5.
     and_then (scrape_products web TOUCH_URL st5) (\<lambda>products_touch st6.
     and_then (save_products_to_csv products_home ''home.csv'' st6) (\<lambda>_ st7.
     and_then (save_products_to_csv products_computers ''computers.csv'' st7) (\<lambda>_ st8.
     and_then (save_products_to_csv products_laptops ''laptops.csv'' st8) (\<lambda>_ st9.
     and_then (save_products_to_csv products_tablets ''tablets.csv'' st9) (\<lambda>_ st10.
     and_then (save_products_to_csv products_phones ''phones.csv'' st10) (\<lambda>_ st11.
       save_products_to_csv products_touch ''touch.csv'' st11)))))))))))"

text \<open>
  \<^verbatim>\<open>get_all_products\<close>: a browser session is created, the \<^verbatim>\<open>try\<close> body runs, and the
  \<^verbatim>\<open>finally\<close> clause quits the browser whether the body returned or raised.
\<close>

definition get_all_products :: "site \<Rightarrow> state \<Rightarrow> unit outcome" where
  "get_all_products web st =
     (let st0 = st\<lparr>sessions := Suc (sessions st)\<rparr>
      in case get_all_products_try web st0 of
           None \<Rightarrow> None
         | Some (result, st') \<Rightarrow> Some (result, st'\<lparr>quits := Suc (quits st')\<rparr>))"

section \<open>Notions used to state the properties\<close>

text \<open>
  The exceptions that come from the markup not having the expected shape, as opposed to
  those of the browser and of the operating system.
\<close>

fun ParseError :: "error \<Rightarrow> bool" where
  "ParseError TypeError = True"
| "ParseError AttributeError = True"
| "ParseError (KeyError key) = True"
| "ParseError IndexError = True"
| "ParseError (ValueError conv text) = True"
| "ParseError (WebDriverException msg) = False"
| "ParseError IsADirectoryError = False"
| "ParseError PermissionError = False"
| "ParseError (OSError msg) = False"

text \<open>
  The first token of a text split at runs of whitespace, which is what
  \<^verbatim>\<open>text.split()[0]\<close> would give: the specification's reading of the review count.
\<close>

definition first_whitespace_token :: "string \<Rightarrow> string" where
  "first_whitespace_token s = takeWhile (\<lambda>c. \<not> py_isspace c) (dropWhile py_isspace s)"

text \<open>The six category URLs, in the order of the run.\<close>

definition CATEGORY_URLS :: "string list" where
  "CATEGORY_URLS = [HOME_URL, COMPUTERS_URL, LAPTOPS_URL, TABLETS_URL, PHONES_URL, TOUCH_URL]"

text \<open>The rows of the regular file at a path, none when the path names no regular file.\<close>

definition rows_of :: "state \<Rightarrow> string \<Rightarrow> csv_row list" where
  "rows_of st path =
     (case files st path of
        None \<Rightarrow> []
      | Some Directory \<Rightarrow> []
      | Some (RegularFile w rs) \<Rightarrow> rs)"

text \<open>
  The extraction of a list of categories one after the other, as the run does for its
  six: the products of each, or the first exception. It serves to speak of the jobs that
  precede a failing one.
\<close>

fun scrape_all :: "site \<Rightarrow> string list \<Rightarrow> state \<Rightarrow> Product list list outcome" where
  "scrape_all web [] st = Some (Inr [], st)"
| "scrape_all web (url # urls) st =
     and_then (scrape_products web url st) (\<lambda>products st'.
     and_then (scrape_all web urls st') (\<lambda>rest st''.
       Some (Inr (products # rest), st'')))"

section \<open>Sample markup and sample sites\<close>

text \<open>
  A listing card as the site renders it: the price, the title link with its full title
  in the \<^verbatim>\<open>title\<close> attribute and a shortened one as text, the description, the review
  count, and a paragraph with one star icon per rating point.
\<close>

definition card :: "string \<Rightarrow> string \<Rightarrow> string \<Rightarrow> nat \<Rightarrow> string \<Rightarrow> node" where
  "card full_title description_text price_text stars review_text =
     Tag ''div'' [''thumbnail''] Map.empty
       [Tag ''div'' [''caption''] Map.empty
          [Tag ''h4'' [''price''] Map.empty [Text price_text],
           Tag ''h4'' [] Map.empty
             [Tag ''a'' [''title''] [''title'' \<mapsto> full_title] [Text (take 8 full_title @ ''...'')]],
           Tag ''p'' [''description''] Map.empty [Text description_text]],
        Tag ''div'' [''ratings''] Map.empty
          [Tag ''p'' [''review-count''] Map.empty [Text review_text],
           Tag ''p'' [] Map.empty
             (replicate stars (Tag ''span'' [''ws-icon'', ''ws-icon-star''] Map.empty []))]]"

definition document :: "node list \<Rightarrow> node" where
  "document cards = Tag ''[document]'' [] Map.empty [Tag ''div'' [''row''] Map.empty cards]"

definition acer :: node where
  "acer = card ''Acer Aspire 3'' ''A good laptop'' ''$599.00'' 3 ''12 reviews''"

definition lenovo :: node where
  "lenovo = card ''Lenovo V110'' ([CHR 0xA0] @ ''15.6'' @ [CHR 0xA0] @ ''HD '') ''$321.94'' 2 ''5 reviews''"

definition hp :: node where
  "hp = card ''HP 250 G3'' ''Entry level notebook'' ''$520.99'' 0 ''1 reviews''"

text \<open>A card whose price text holds a second dollar sign.\<close>

definition double_dollar :: node where
  "double_dollar = card ''Acer Aspire 3'' ''A good laptop'' ''$5$9'' 3 ''12 reviews''"

text \<open>A card whose price text has the dollar sign after the number.\<close>

definition trailing_dollar :: node where
  "trailing_dollar = card ''Acer Aspire 3'' ''A good laptop'' ''599.00 $'' 3 ''12 reviews''"

text \<open>A card whose review text has a line break and then a space after the number.\<close>

definition wrapped :: node where
  "wrapped = card ''Acer Aspire 3'' ''A good laptop'' ''$599.00'' 3 (''12'' @ [CHR 0x0A] @ '' reviews'')"

text \<open>
  A number of reviews that takes 4301 digits to write, and a card that reports it.
\<close>

definition many_reviews :: nat where
  "many_reviews = 10 ^ 4300"

definition crowded :: node where
  "crowded = card ''Acer Aspire 3'' ''A good laptop'' ''$599.00'' 3 (decimal many_reviews @ '' reviews'')"

text \<open>A card whose review text has a tab, not a space, after the number.\<close>

definition tabbed :: node where
  "tabbed = card ''Acer Aspire 3'' ''A good laptop'' ''$599.00'' 3 (''12'' @ [CHR 0x09] @ ''reviews'')"

text \<open>A card whose review text does not start with a number.\<close>

definition unreviewed :: node where
  "unreviewed = card ''Dell Latitude'' ''Business laptop'' ''$431.00'' 0 ''no reviews''"

text \<open>A card whose price text is not a number.\<close>

definition unpriced :: node where
  "unpriced = card ''Asus VivoBook'' ''Out of stock'' ''$N/A'' 4 ''7 reviews''"

text \<open>
  A page that loads, shows no cookie banner problem, and whose load-more control can be
  used \<open>clicks\<close> times before the wait for it times out; it shows the same cards
  throughout.
\<close>

definition sample_page :: "nat \<Rightarrow> node list \<Rightarrow> site_page" where
  "sample_page clicks cards =
     \<lparr>navigation = None, cookie_banner = CookieClicked,
      load_more = (\<lambda>k. if k < clicks then Completes else RaisesTimeout),
      page_source = (\<lambda>k. document cards)\<rparr>"

text \<open>A site whose computers category holds a card without a price.\<close>

definition broken_site :: site where
  "broken_site url =
     (if url = COMPUTERS_URL then sample_page 0 [acer, unpriced] else sample_page 0 [acer])"

text \<open>A site whose pages can be expanded twice.\<close>

definition scrolling_site :: site where
  "scrolling_site url = sample_page 2 [acer, lenovo]"

definition healthy_site :: site where
  "healthy_site url = sample_page 0 [acer]"

text \<open>
  A state before any run: no file exists, files may be created and the device has room.
\<close>

definition initial_state :: state where
  "initial_state =
     \<lparr>current_url = [], expansions = 0, sessions = 0, quits = 0, stdout = [],
      files = Map.empty, can_create = True, space_left = True\<rparr>"

section \<open>Properties of the built-ins\<close>

subsection \<open>Stripping, replacing and splitting\<close>

lemma strip_fixed:
  assumes "xs = [] \<or> (\<not> P (hd xs) \<and> \<not> P (last xs))"
  shows "rev (dropWhile P (rev (dropWhile P xs))) = xs"
proof (cases "xs = []")
  case True
  then show ?thesis by simp
next
  case False
  with assms have h: "\<not> P (hd xs)" and l: "\<not> P (last xs)" by auto
  from False h have "dropWhile P xs = xs" by (cases xs) auto
  moreover from False l have "dropWhile P (rev xs) = rev xs"
    by (cases "rev xs") (auto simp: last_rev)
  ultimately show ?thesis by simp
qed

lemma strip_ends:
  fixes P :: "'a \<Rightarrow> bool"
  defines "t \<equiv> \<lambda>xs. rev (dropWhile P (rev (dropWhile P xs)))"
  shows "t xs = [] \<or> (\<not> P (hd (t xs)) \<and> \<not> P (last (t xs)))"
proof (cases "t xs = []")
  case True
  then show ?thesis by simp
next
  case False
  let ?d = "dropWhile P xs"
  let ?u = "dropWhile P (rev ?d)"
  from False have u: "?u \<noteq> []" by (simp add: t_def)
  have d: "?d \<noteq> []"
  proof
    assume "?d = []"
    with u show False by simp
  qed
  have "\<not> P (hd ?u)" using u by (simp add: hd_dropWhile)
  then have l: "\<not> P (last (t xs))" using u by (simp add: t_def last_rev)
  have "last ?u = last (rev ?d)"
    using u by (metis dropWhile_eq_Nil_conv dropWhile_last)
  then have "hd (t xs) = hd ?d" using u d by (simp add: t_def hd_rev last_rev)
  moreover have "\<not> P (hd ?d)" using d by (simp add: hd_dropWhile)
  ultimately show ?thesis using l by simp
qed

lemma py_strip_idem: "py_strip (py_strip s) = py_strip s"
  unfolding py_strip_def by (rule strip_fixed) (rule strip_ends)

lemma py_replace_empty: "py_replace c [] s = filter (\<lambda>x. x \<noteq> c) s"
  by (induction s) (auto simp: py_replace_def)

lemma py_replace_char: "py_replace c [d] s = map (\<lambda>x. if x = c then d else x) s"
  by (induction s) (auto simp: py_replace_def)

lemma py_split_nonempty: "py_split sep s \<noteq> []"
  by (induction s) (auto split: list.splits)

lemma hd_py_split: "hd (py_split sep s) = takeWhile (\<lambda>c. c \<noteq> sep) s"
  using py_split_nonempty by (induction s) (auto split: list.splits)

lemma py_split_first: "\<exists>rest. py_split sep s = takeWhile (\<lambda>c. c \<noteq> sep) s # rest"
  using hd_py_split [of sep s] py_split_nonempty [of sep s] by (cases "py_split sep s") auto

lemma in_dropWhile: "c \<in> set s \<Longrightarrow> \<not> P c \<Longrightarrow> c \<in> set (dropWhile P s)"
  by (induction s) auto

lemma in_py_strip: "c \<in> set s \<Longrightarrow> \<not> py_isspace c \<Longrightarrow> c \<in> set (py_strip s)"
  by (simp add: py_strip_def in_dropWhile)

subsection \<open>Decimal numerals and \<open>int\<close>\<close>

lemma below_ten: "d < 10 \<Longrightarrow> d \<in> {0, 1, 2, 3, 4, 5, 6, 7, 8, 9::nat}"
  by auto

lemma digit_char_is_digit: "d < 10 \<Longrightarrow> is_digit (''0123456789'' ! d)"
  by (drule below_ten) (auto simp: is_digit_def)

lemma digit_char_val: "d < 10 \<Longrightarrow> digit_val (''0123456789'' ! d) = d"
  by (drule below_ten) (auto simp: digit_val_def)

lemma digit_not_space: "is_digit c \<Longrightarrow> \<not> py_isspace c"
  by (auto simp: is_digit_def py_isspace_def)

lemma all_digits_decimal: "list_all is_digit (decimal n)"
proof (induction n rule: decimal.induct)
  case (1 n)
  show ?case
  proof (cases "n < 10")
    case True
    then show ?thesis by (subst decimal.simps) (simp add: digit_char_is_digit)
  next
    case False
    with 1 show ?thesis by (subst decimal.simps) (simp add: digit_char_is_digit)
  qed
qed

lemma decimal_nonempty: "decimal n \<noteq> []"
  by (subst decimal.simps) simp

lemma digits_val_snoc: "digits_val (ds @ [c]) = 10 * digits_val ds + digit_val c"
  by (simp add: digits_val_def)

lemma digits_val_decimal: "digits_val (decimal n) = n"
proof (induction n rule: decimal.induct)
  case (1 n)
  show ?case
  proof (cases "n < 10")
    case True
    then show ?thesis by (subst decimal.simps) (simp add: digit_char_val digits_val_def)
  next
    case False
    with 1 show ?thesis
      by (subst decimal.simps) (simp add: digits_val_snoc digit_char_val)
  qed
qed

lemma py_strip_digits:
  assumes "list_all is_digit s"
  shows "py_strip s = s"
  unfolding py_strip_def
proof (rule strip_fixed)
  show "s = [] \<or> \<not> py_isspace (hd s) \<and> \<not> py_isspace (last s)"
  proof (cases "s = []")
    case True
    then show ?thesis by simp
  next
    case False
    then have "hd s \<in> set s" "last s \<in> set s" by simp_all
    with assms have "is_digit (hd s)" "is_digit (last s)" by (simp_all add: list_all_iff)
    then show ?thesis by (simp add: digit_not_space)
  qed
qed

lemma underscore_not_digit: "\<not> is_digit CHR ''_''"
  by (simp add: is_digit_def)

lemma underscores_ok_digits: "list_all is_digit s \<Longrightarrow> underscores_ok b s"
  by (induction s arbitrary: b) (auto simp: underscore_not_digit)

lemma filter_underscore_digits: "list_all is_digit s \<Longrightarrow> filter (\<lambda>c. c \<noteq> CHR ''_'') s = s"
  by (induction s) (auto simp: underscore_not_digit)

lemma split_sign_digits: "list_all is_digit s \<Longrightarrow> split_sign s = (False, s)"
  by (cases s) (auto simp: split_sign_def is_digit_def)

lemma py_int_digits:
  "s \<noteq> [] \<Longrightarrow> list_all is_digit s \<Longrightarrow>
   py_int s = (if length s \<le> INT_MAX_STR_DIGITS then Some (int (digits_val s)) else None)"
  by (simp add: py_int_def py_strip_digits underscores_ok_digits filter_underscore_digits
      split_sign_digits)

lemma py_int_decimal:
  "py_int (decimal n) =
     (if length (decimal n) \<le> INT_MAX_STR_DIGITS then Some (int n) else None)"
  by (simp add: py_int_digits decimal_nonempty all_digits_decimal digits_val_decimal)

lemma decimal_power_of_ten: "decimal (10 ^ k) = CHR ''1'' # replicate k CHR ''0''"
proof (induction k)
  case 0
  show ?case by (subst decimal.simps) simp
next
  case (Suc k)
  have "\<not> (10::nat) ^ Suc k < 10" by simp
  then have "decimal (10 ^ Suc k) = decimal (10 ^ k) @ [CHR ''0'']"
    by (subst decimal.simps) simp
  with Suc show ?case by (simp add: replicate_append_same)
qed

lemma length_decimal_many_reviews: "length (decimal many_reviews) = 4301"
  by (simp only: many_reviews_def decimal_power_of_ten) simp

lemma py_int_strip: "py_int (py_strip s) = py_int s"
  by (simp add: py_int_def py_strip_idem)

lemma no_space_decimal: "CHR '' '' \<notin> set (decimal n)"
proof
  assume "CHR '' '' \<in> set (decimal n)"
  with all_digits_decimal [of n] have "is_digit CHR '' ''" by (simp add: list_all_iff)
  then show False by (simp add: is_digit_def)
qed

subsection \<open>Texts that \<open>float\<close> rejects\<close>

lemma py_float_strip: "py_float (py_strip s) = py_float s"
  by (simp add: py_float_def py_strip_idem)

lemma in_split_sign:
  "c \<in> set s \<Longrightarrow> c \<noteq> CHR ''-'' \<Longrightarrow> c \<noteq> CHR ''+'' \<Longrightarrow> c \<in> set (snd (split_sign s))"
  by (cases s) (auto simp: split_sign_def)

lemma float_exponent_foreign:
  assumes "c \<in> set r" "\<not> is_digit c" "c \<noteq> CHR ''e''" "c \<noteq> CHR ''E''" "c \<noteq> CHR ''-''" "c \<noteq> CHR ''+''"
  shows "float_exponent r = None"
proof (cases r)
  case Nil
  with assms show ?thesis by simp
next
  case (Cons x r')
  show ?thesis
  proof (cases "x = CHR ''e'' \<or> x = CHR ''E''")
    case True
    with assms Cons have "c \<in> set r'" by auto
    with assms have "c \<in> set (snd (split_sign r'))" by (simp add: in_split_sign)
    with assms have "\<not> list_all is_digit (snd (split_sign r'))" by (auto simp: list_all_iff)
    with Cons True show ?thesis by (auto simp: float_exponent_def split: prod.splits)
  next
    case False
    with Cons show ?thesis by (simp add: float_exponent_def)
  qed
qed

lemma float_decimal_foreign:
  assumes "c \<in> set body" "\<not> is_digit c" "c \<noteq> CHR ''.''"
    "c \<noteq> CHR ''e''" "c \<noteq> CHR ''E''" "c \<noteq> CHR ''-''" "c \<noteq> CHR ''+''"
  shows "float_decimal body = None"
proof -
  let ?r1 = "dropWhile is_digit body"
  from assms have c1: "c \<in> set ?r1" by (simp add: in_dropWhile)
  then obtain x r where r1: "?r1 = x # r" by (cases ?r1) auto
  show ?thesis
  proof (cases "x = CHR ''.''")
    case True
    with c1 r1 assms have "c \<in> set r" by auto
    with assms have "c \<in> set (dropWhile is_digit r)" by (simp add: in_dropWhile)
    with assms have "float_exponent (dropWhile is_digit r) = None"
      by (simp add: float_exponent_foreign)
    with r1 True show ?thesis by (simp add: float_decimal_def Let_def)
  next
    case False
    from c1 assms have "float_exponent ?r1 = None" by (simp add: float_exponent_foreign)
    with r1 False show ?thesis by (simp add: float_decimal_def Let_def)
  qed
qed

lemma ascii_lower_dollar: "ascii_lower CHR ''$'' = CHR ''$''"
  by (simp add: ascii_lower_def)

lemma py_float_no_dollar:
  assumes "py_float s = Some v"
  shows "CHR ''$'' \<notin> set s"
proof
  assume "CHR ''$'' \<in> set s"
  then have "CHR ''$'' \<in> set (py_strip s)" by (simp add: in_py_strip py_isspace_def)
  then have u: "CHR ''$'' \<in> set (filter (\<lambda>c. c \<noteq> CHR ''_'') (py_strip s))" by simp
  obtain neg body where ss: "split_sign (filter (\<lambda>c. c \<noteq> CHR ''_'') (py_strip s)) = (neg, body)"
    by (cases "split_sign (filter (\<lambda>c. c \<noteq> CHR ''_'') (py_strip s))")
  from u have b: "CHR ''$'' \<in> set body"
    using in_split_sign [of "CHR ''$''" "filter (\<lambda>c. c \<noteq> CHR ''_'') (py_strip s)"] ss by simp
  then have "CHR ''$'' \<in> set (map ascii_lower body)"
    using ascii_lower_dollar by force
  then have low: "map ascii_lower body \<noteq> ''inf''" "map ascii_lower body \<noteq> ''infinity''"
    "map ascii_lower body \<noteq> ''nan''"
    by auto
  from b have "float_decimal body = None"
    by (rule float_decimal_foreign) (simp_all add: is_digit_def)
  with low ss have "py_float s = None"
    by (simp add: py_float_def Let_def)
  with assms show False by simp
qed

section \<open>The Item Extractor: the elements found\<close>

lemma parse_single_product_ParseError: "parse_single_product soup = Inl e \<Longrightarrow> ParseError e"
  by (auto simp: parse_single_product_def Let_def split: option.splits list.splits)

text \<open>
  What \<^verbatim>\<open>parse_single_product\<close> does with a fragment in which the four elements are
  found: the price text without its dollar signs and the review text up to its first
  space decide.
\<close>

lemma parse_single_product_found:
  assumes "select_one product_soup (Class ''title'') = Some title_el"
    and "attrs title_el ''title'' = Some T"
    and "select_one product_soup (Class ''description'') = Some description_el"
    and "select_one product_soup (Class ''price'') = Some price_el"
    and "select_one product_soup (Class ''review-count'') = Some review_el"
  shows "parse_single_product product_soup =
     (case py_float (py_strip (filter (\<lambda>c. c \<noteq> CHR ''$'') (text_of price_el))) of
        None \<Rightarrow> Inl (ValueError ToFloat (py_strip (filter (\<lambda>c. c \<noteq> CHR ''$'') (text_of price_el))))
      | Some v \<Rightarrow>
          (case py_int (py_strip (takeWhile (\<lambda>c. c \<noteq> CHR '' '') (text_of review_el))) of
             None \<Rightarrow> Inl (ValueError ToInt
                        (py_strip (takeWhile (\<lambda>c. c \<noteq> CHR '' '') (text_of review_el))))
           | Some k \<Rightarrow>
               Inr \<lparr>title = T,
                    description = py_strip (map (\<lambda>c. if c = CHR 0xA0 then CHR '' '' else c)
                                    (text_of description_el)),
                    price = v,
                    rating = int (length (select product_soup (ChildOf ''p'' ''ws-icon-star''))),
                    num_of_reviews = k\<rparr>))"
proof -
  obtain rest where
    "py_split CHR '' '' (text_of review_el) =
       takeWhile (\<lambda>c. c \<noteq> CHR '' '') (text_of review_el) # rest"
    using py_split_first by blast
  then show ?thesis
    using assms
    by (simp add: parse_single_product_def py_replace_empty py_replace_char Let_def
        split: option.splits)
qed

section \<open>The samples, evaluated\<close>

lemmas py_eval = py_float_def py_int_def py_strip_def py_isspace_def split_sign_def
  float_decimal_def is_digit_def float_exponent_def scale10_def digits_val_def digit_val_def
  ascii_lower_def py_replace_def INT_MAX_STR_DIGITS_def

lemmas soup_eval = select_one_def select_def card_def document_def

text \<open>What the selectors of the extractor find in a card.\<close>

lemma card_title:
  "select_one (card T D P k R) (Class ''title'') =
     Some (Tag ''a'' [''title''] [''title'' \<mapsto> T] [Text (take 8 T @ ''...'')])"
  by (simp add: soup_eval)

lemma card_description:
  "select_one (card T D P k R) (Class ''description'') =
     Some (Tag ''p'' [''description''] Map.empty [Text D])"
  by (simp add: soup_eval)

lemma card_price:
  "select_one (card T D P k R) (Class ''price'') = Some (Tag ''h4'' [''price''] Map.empty [Text P])"
  by (simp add: soup_eval)

lemma card_review:
  "select_one (card T D P k R) (Class ''review-count'') =
     Some (Tag ''p'' [''review-count''] Map.empty [Text R])"
  by (simp add: soup_eval)

lemma card_stars: "length (select (card T D P k R) (ChildOf ''p'' ''ws-icon-star'')) = k"
  by (simp add: soup_eval)

lemmas card_elements = card_title card_description card_price card_review card_stars

lemma parse_card:
  "parse_single_product (card T D P k R) =
     (case py_float (py_strip (filter (\<lambda>c. c \<noteq> CHR ''$'') P)) of
        None \<Rightarrow> Inl (ValueError ToFloat (py_strip (filter (\<lambda>c. c \<noteq> CHR ''$'') P)))
      | Some v \<Rightarrow>
          (case py_int (py_strip (takeWhile (\<lambda>c. c \<noteq> CHR '' '') R)) of
             None \<Rightarrow> Inl (ValueError ToInt (py_strip (takeWhile (\<lambda>c. c \<noteq> CHR '' '') R)))
           | Some n \<Rightarrow>
               Inr \<lparr>title = T,
                    description = py_strip (map (\<lambda>c. if c = CHR 0xA0 then CHR '' '' else c) D),
                    price = v, rating = int k, num_of_reviews = n\<rparr>))"
  using parse_single_product_found [OF card_title _ card_description card_price card_review,
      of T T D P k R]
  by (simp add: card_stars split: option.splits)

lemma parse_acer:
  "parse_single_product acer =
     Inr \<lparr>title = ''Acer Aspire 3'', description = ''A good laptop'', price = Finite 599,
          rating = 3, num_of_reviews = 12\<rparr>"
  by (simp add: acer_def parse_card py_eval)

lemma parse_lenovo:
  "parse_single_product lenovo =
     Inr \<lparr>title = ''Lenovo V110'', description = ''15.6 HD'', price = Finite (32194 / 100),
          rating = 2, num_of_reviews = 5\<rparr>"
  by (simp add: lenovo_def parse_card py_eval)

lemma parse_hp:
  "parse_single_product hp =
     Inr \<lparr>title = ''HP 250 G3'', description = ''Entry level notebook'',
          price = Finite (52099 / 100), rating = 0, num_of_reviews = 1\<rparr>"
  by (simp add: hp_def parse_card py_eval)

lemma parse_unpriced: "parse_single_product unpriced = Inl (ValueError ToFloat ''N/A'')"
  by (simp add: unpriced_def parse_card py_eval)

lemma select_children:
  "map snd (filter (\<lambda>(parent, el). matches (Class k) parent el)
      (concat (map (\<lambda>c. (p, c) # descendants c) cs))) =
   concat (map (\<lambda>c. (if has_class k c then [c] else []) @ select c (Class k)) cs)"
  by (induction cs) (auto simp: select_def)

lemma thumbnails_of_document:
  "select (document cards) (Class ''thumbnail'') =
     concat (map (\<lambda>c. (if has_class ''thumbnail'' c then [c] else []) @
                       select c (Class ''thumbnail'')) cards)"
  using select_children [of "''thumbnail''" _ cards]
  by (simp add: document_def select_def)

lemma no_nested_thumbnail: "select (card T D P k R) (Class ''thumbnail'') = []"
  by (simp add: soup_eval)

lemma card_is_thumbnail: "has_class ''thumbnail'' (card T D P k R)"
  by (simp add: card_def)

lemma thumbnails_of_cards:
  "select (document [card T1 D1 P1 k1 R1, card T2 D2 P2 k2 R2, card T3 D3 P3 k3 R3])
     (Class ''thumbnail'') =
   [card T1 D1 P1 k1 R1, card T2 D2 P2 k2 R2, card T3 D3 P3 k3 R3]"
  by (simp add: thumbnails_of_document no_nested_thumbnail card_is_thumbnail)

lemma decimal_5: "decimal 5 = ''5''"
  by (simp add: decimal.simps [of 5])

section \<open>The Item Extractor\<close>

lemma price_text_ok:
  assumes "py_float P = Some v"
  shows "py_float (py_strip (filter (\<lambda>c. c \<noteq> CHR ''$'') (CHR ''$'' # P))) = Some v"
proof -
  from assms have "CHR ''$'' \<notin> set P" by (rule py_float_no_dollar)
  then have "filter (\<lambda>c. c \<noteq> CHR ''$'') P = P" by (auto simp: filter_id_conv)
  then show ?thesis using assms by (simp add: py_float_strip)
qed

lemma review_text_first:
  "takeWhile (\<lambda>c. c \<noteq> CHR '' '') (decimal n @ '' reviews'') = decimal n"
  using no_space_decimal [of n] by (subst takeWhile_append2) auto

lemma py_strip_decimal: "py_strip (decimal n) = decimal n"
  by (simp add: py_strip_digits all_digits_decimal)

text \<open>
  Claim C2, as the code has it. Take a fragment whose first \<^verbatim>\<open>.title\<close> element has the
  title attribute \<open>T\<close>, whose first \<^verbatim>\<open>.description\<close> element has the text \<open>D\<close>, whose first
  \<^verbatim>\<open>.price\<close> element has the text \<^verbatim>\<open>$\<close> followed by \<open>P\<close>, where \<^verbatim>\<open>float\<close> reads \<open>P\<close> as
  \<open>v\<close>, which has \<open>k\<close> star icons directly inside paragraphs, and whose first
  \<^verbatim>\<open>.review-count\<close> element has the text of the decimal numeral of \<open>n\<close> followed by
  \<^verbatim>\<open> reviews\<close>, where the numeral has at most 4300 digits. Then \<^verbatim>\<open>parse_single_product\<close>
  returns the product with title \<open>T\<close>, with \<open>D\<close> where every non-breaking space has become
  a space and the surrounding whitespace is gone, with price \<open>v\<close>, rating \<open>k\<close> and \<open>n\<close>
  reviews.
\<close>

theorem item_extractor_well_formed:
  assumes "select_one product_soup (Class ''title'') = Some title_el"
    and "attrs title_el ''title'' = Some T"
    and "select_one product_soup (Class ''description'') = Some description_el"
    and "text_of description_el = D"
    and "select_one product_soup (Class ''price'') = Some price_el"
    and "text_of price_el = CHR ''$'' # P"
    and "py_float P = Some v"
    and "length (select product_soup (ChildOf ''p'' ''ws-icon-star'')) = k"
    and "select_one product_soup (Class ''review-count'') = Some review_el"
    and "text_of review_el = decimal n @ '' reviews''"
    and "length (decimal n) \<le> 4300"
  shows "parse_single_product product_soup =
           Inr \<lparr>title = T,
                description = py_strip (map (\<lambda>c. if c = CHR 0xA0 then CHR '' '' else c) D),
                price = v, rating = int k, num_of_reviews = int n\<rparr>"
proof -
  have price: "py_float (py_strip (filter (\<lambda>c. c \<noteq> CHR ''$'') (text_of price_el))) = Some v"
    using assms(6,7) price_text_ok [of P v] by simp
  have count: "py_int (py_strip (takeWhile (\<lambda>c. c \<noteq> CHR '' '') (text_of review_el))) = Some (int n)"
    using assms(10,11)
    by (simp add: review_text_first py_strip_decimal py_int_decimal INT_MAX_STR_DIGITS_def)
  show ?thesis
    using parse_single_product_found [OF assms(1,2,3,5,9)] assms(4,8)
    by (simp add: price count)
qed

text \<open>
  A card whose description starts with a non-breaking space, holds another one and ends
  with a space: \<^verbatim>\<open>Lenovo V110\<close>, priced \<^verbatim>\<open>$321.94\<close>, two stars, \<^verbatim>\<open>5 reviews\<close>.
\<close>

theorem item_extractor_well_formed_witness:
  "map_option (\<lambda>el. attrs el ''title'') (select_one lenovo (Class ''title'')) =
     Some (Some ''Lenovo V110'') \<and>
   map_option text_of (select_one lenovo (Class ''description'')) =
     Some ([CHR 0xA0] @ ''15.6'' @ [CHR 0xA0] @ ''HD '') \<and>
   map_option text_of (select_one lenovo (Class ''price'')) = Some (CHR ''$'' # ''321.94'') \<and>
   py_float ''321.94'' = Some (Finite (32194 / 100)) \<and>
   length (select lenovo (ChildOf ''p'' ''ws-icon-star'')) = 2 \<and>
   map_option text_of (select_one lenovo (Class ''review-count'')) =
     Some (decimal 5 @ '' reviews'') \<and>
   length (decimal 5) \<le> 4300 \<and>
   parse_single_product lenovo =
     Inr \<lparr>title = ''Lenovo V110'', description = ''15.6 HD'', price = Finite (32194 / 100),
          rating = 2, num_of_reviews = 5\<rparr>"
proof -
  let ?title_el = "the (select_one lenovo (Class ''title''))"
  let ?description_el = "the (select_one lenovo (Class ''description''))"
  let ?price_el = "the (select_one lenovo (Class ''price''))"
  let ?review_el = "the (select_one lenovo (Class ''review-count''))"
  have 1: "select_one lenovo (Class ''title'') = Some ?title_el"
    by (simp add: lenovo_def card_elements)
  have 2: "attrs ?title_el ''title'' = Some ''Lenovo V110''"
    by (simp add: lenovo_def card_elements)
  have 3: "select_one lenovo (Class ''description'') = Some ?description_el"
    by (simp add: lenovo_def card_elements)
  have 4: "text_of ?description_el = [CHR 0xA0] @ ''15.6'' @ [CHR 0xA0] @ ''HD ''"
    by (simp add: lenovo_def card_elements)
  have 5: "select_one lenovo (Class ''price'') = Some ?price_el"
    by (simp add: lenovo_def card_elements)
  have 6: "text_of ?price_el = CHR ''$'' # ''321.94''"
    by (simp add: lenovo_def card_elements)
  have 7: "py_float ''321.94'' = Some (Finite (32194 / 100))"
    by (simp add: py_eval)
  have 8: "length (select lenovo (ChildOf ''p'' ''ws-icon-star'')) = 2"
    by (simp add: lenovo_def card_elements)
  have 9: "select_one lenovo (Class ''review-count'') = Some ?review_el"
    by (simp add: lenovo_def card_elements)
  have 10: "text_of ?review_el = decimal 5 @ '' reviews''"
    by (simp add: lenovo_def card_elements decimal_5)
  have 11: "length (decimal 5) \<le> 4300"
    by (simp add: decimal_5)
  have "parse_single_product lenovo =
     Inr \<lparr>title = ''Lenovo V110'', description = ''15.6 HD'', price = Finite (32194 / 100),
          rating = 2, num_of_reviews = 5\<rparr>"
    using item_extractor_well_formed [OF 1 2 3 4 5 6 7 8 9 10 11]
    by (simp add: py_strip_def py_isspace_def)
  moreover have "map_option (\<lambda>el. attrs el ''title'') (select_one lenovo (Class ''title'')) =
      Some (Some ''Lenovo V110'')"
    by (simp add: lenovo_def card_elements)
  moreover have "map_option text_of (select_one lenovo (Class ''description'')) =
      Some ([CHR 0xA0] @ ''15.6'' @ [CHR 0xA0] @ ''HD '')"
    by (simp add: lenovo_def card_elements)
  moreover have "map_option text_of (select_one lenovo (Class ''price'')) =
      Some (CHR ''$'' # ''321.94'')"
    by (simp add: lenovo_def card_elements)
  moreover have "map_option text_of (select_one lenovo (Class ''review-count'')) =
      Some (decimal 5 @ '' reviews'')"
    by (simp add: lenovo_def card_elements decimal_5)
  ultimately show ?thesis using 7 8 11 by simp
qed

text \<open>
  Against claim C2 as stated: a card that is well formed in every respect and reports
  a number of reviews written with 4301 digits is not parsed: \<^verbatim>\<open>int\<close> raises
  \<^verbatim>\<open>ValueError\<close>, because the numeral is longer than the interpreter lets it convert.
\<close>

theorem long_review_count_is_rejected:
  "length (decimal many_reviews) = 4301 \<and>
   map_option (\<lambda>el. attrs el ''title'') (select_one crowded (Class ''title'')) =
     Some (Some ''Acer Aspire 3'') \<and>
   map_option text_of (select_one crowded (Class ''description'')) = Some ''A good laptop'' \<and>
   map_option text_of (select_one crowded (Class ''price'')) = Some (CHR ''$'' # ''599.00'') \<and>
   py_float ''599.00'' = Some (Finite 599) \<and>
   length (select crowded (ChildOf ''p'' ''ws-icon-star'')) = 3 \<and>
   map_option text_of (select_one crowded (Class ''review-count'')) =
     Some (decimal many_reviews @ '' reviews'') \<and>
   parse_single_product crowded = Inl (ValueError ToInt (decimal many_reviews))"
proof -
  let ?title_el = "the (select_one crowded (Class ''title''))"
  let ?description_el = "the (select_one crowded (Class ''description''))"
  let ?price_el = "the (select_one crowded (Class ''price''))"
  let ?review_el = "the (select_one crowded (Class ''review-count''))"
  have 1: "select_one crowded (Class ''title'') = Some ?title_el"
    by (simp add: crowded_def card_elements)
  have 2: "attrs ?title_el ''title'' = Some ''Acer Aspire 3''"
    by (simp add: crowded_def card_elements)
  have 3: "select_one crowded (Class ''description'') = Some ?description_el"
    by (simp add: crowded_def card_elements)
  have 4: "select_one crowded (Class ''price'') = Some ?price_el"
    by (simp add: crowded_def card_elements)
  have 5: "select_one crowded (Class ''review-count'') = Some ?review_el"
    by (simp add: crowded_def card_elements)
  have price_text: "text_of ?price_el = ''$599.00''"
    by (simp add: crowded_def card_elements)
  have review_text: "text_of ?review_el = decimal many_reviews @ '' reviews''"
    by (simp add: crowded_def card_elements)
  have price: "py_float (py_strip (filter (\<lambda>c. c \<noteq> CHR ''$'') (text_of ?price_el))) =
      Some (Finite 599)"
    by (simp add: price_text py_eval)
  have piece: "py_strip (takeWhile (\<lambda>c. c \<noteq> CHR '' '') (text_of ?review_el)) =
      decimal many_reviews"
    by (simp add: review_text review_text_first py_strip_decimal)
  have count: "py_int (decimal many_reviews) = None"
    by (simp add: py_int_decimal length_decimal_many_reviews INT_MAX_STR_DIGITS_def)
  have "parse_single_product crowded = Inl (ValueError ToInt (decimal many_reviews))"
    using parse_single_product_found [OF 1 2 3 4 5] by (simp add: price piece count)
  moreover have "map_option (\<lambda>el. attrs el ''title'') (select_one crowded (Class ''title'')) =
      Some (Some ''Acer Aspire 3'')"
    by (simp add: crowded_def card_elements)
  moreover have "map_option text_of (select_one crowded (Class ''description'')) =
      Some ''A good laptop''"
    by (simp add: crowded_def card_elements)
  moreover have "map_option text_of (select_one crowded (Class ''price'')) =
      Some (CHR ''$'' # ''599.00'')"
    by (simp add: crowded_def card_elements)
  moreover have "map_option text_of (select_one crowded (Class ''review-count'')) =
      Some (decimal many_reviews @ '' reviews'')"
    by (simp add: crowded_def card_elements)
  moreover have "py_float ''599.00'' = Some (Finite 599)"
    by (simp add: py_eval)
  moreover have "length (select crowded (ChildOf ''p'' ''ws-icon-star'')) = 3"
    by (simp add: crowded_def card_elements)
  ultimately show ?thesis using length_decimal_many_reviews by simp
qed

text \<open>
  Claim C6, as the code has it. Take a fragment that has a \<^verbatim>\<open>.title\<close> element with the
  title attribute \<open>T\<close>, a \<^verbatim>\<open>.description\<close> element and a \<^verbatim>\<open>.price\<close> element, and let \<open>t\<close>
  be the price text with every dollar sign removed, wherever it stands, and then
  stripped of surrounding whitespace.
  \<^item> \<^verbatim>\<open>parse_single_product\<close> raises the \<^verbatim>\<open>ValueError\<close> of \<^verbatim>\<open>float\<close> for \<open>t\<close> exactly when
    \<^verbatim>\<open>float\<close> rejects \<open>t\<close>.
  \<^item> Every product it returns has the value of \<open>t\<close> as its price.
  \<^item> When \<^verbatim>\<open>float\<close> reads \<open>t\<close> as \<open>v\<close>, the price is accepted: if the fragment also has a
    \<^verbatim>\<open>.review-count\<close> element whose text up to the first space converts to \<open>k\<close>, the
    product with title \<open>T\<close>, the normalised description, price \<open>v\<close>, the number of star
    icons as rating and \<open>k\<close> reviews is returned.
\<close>

theorem price_conversion:
  assumes "select_one product_soup (Class ''title'') = Some title_el"
    and "attrs title_el ''title'' = Some T"
    and "select_one product_soup (Class ''description'') = Some description_el"
    and "select_one product_soup (Class ''price'') = Some price_el"
    and "t = py_strip (filter (\<lambda>c. c \<noteq> CHR ''$'') (text_of price_el))"
  shows "(parse_single_product product_soup = Inl (ValueError ToFloat t)) = (py_float t = None) \<and>
         (\<forall>product. parse_single_product product_soup = Inr product \<longrightarrow>
            py_float t = Some (price product)) \<and>
         (\<forall>v review_el k.
            py_float t = Some v \<and>
            select_one product_soup (Class ''review-count'') = Some review_el \<and>
            py_int (py_strip (takeWhile (\<lambda>c. c \<noteq> CHR '' '') (text_of review_el))) = Some k \<longrightarrow>
            parse_single_product product_soup =
              Inr \<lparr>title = T,
                   description = py_strip (map (\<lambda>c. if c = CHR 0xA0 then CHR '' '' else c)
                                   (text_of description_el)),
                   price = v,
                   rating = int (length (select product_soup (ChildOf ''p'' ''ws-icon-star''))),
                   num_of_reviews = k\<rparr>)"
proof -
  have first: "(parse_single_product product_soup = Inl (ValueError ToFloat t)) = (py_float t = None)"
    using assms
    by (auto simp: parse_single_product_def py_replace_empty Let_def
        split: option.splits list.splits)
  have second: "\<forall>product. parse_single_product product_soup = Inr product \<longrightarrow>
      py_float t = Some (price product)"
    using assms
    by (auto simp: parse_single_product_def py_replace_empty Let_def
        split: option.splits list.splits)
  have third: "parse_single_product product_soup =
      Inr \<lparr>title = T,
           description = py_strip (map (\<lambda>c. if c = CHR 0xA0 then CHR '' '' else c)
                           (text_of description_el)),
           price = v,
           rating = int (length (select product_soup (ChildOf ''p'' ''ws-icon-star''))),
           num_of_reviews = k\<rparr>"
    if "py_float t = Some v"
      and "select_one product_soup (Class ''review-count'') = Some review_el"
      and "py_int (py_strip (takeWhile (\<lambda>c. c \<noteq> CHR '' '') (text_of review_el))) = Some k"
    for v review_el k
    using parse_single_product_found [OF assms(1,2,3,4) that(2)] that(1,3) assms(5)
    by simp
  from first second third show ?thesis by blast
qed

text \<open>
  The card priced \<^verbatim>\<open>599.00 $\<close>, with the dollar sign at the end, is parsed with the price
  599; the card priced \<^verbatim>\<open>$N/A\<close> is rejected, \<^verbatim>\<open>N/A\<close> being no number.
\<close>

theorem price_conversion_witness:
  "map_option text_of (select_one trailing_dollar (Class ''price'')) = Some ''599.00 $'' \<and>
   py_float ''599.00'' = Some (Finite 599) \<and>
   parse_single_product trailing_dollar =
     Inr \<lparr>title = ''Acer Aspire 3'', description = ''A good laptop'', price = Finite 599,
          rating = 3, num_of_reviews = 12\<rparr> \<and>
   map_option text_of (select_one unpriced (Class ''price'')) = Some ''$N/A'' \<and>
   py_float ''N/A'' = None \<and>
   parse_single_product unpriced = Inl (ValueError ToFloat ''N/A'')"
proof -
  let ?title_el = "the (select_one unpriced (Class ''title''))"
  let ?description_el = "the (select_one unpriced (Class ''description''))"
  let ?price_el = "the (select_one unpriced (Class ''price''))"
  have 1: "select_one unpriced (Class ''title'') = Some ?title_el"
    by (simp add: unpriced_def card_elements)
  have 2: "attrs ?title_el ''title'' = Some ''Asus VivoBook''"
    by (simp add: unpriced_def card_elements)
  have 3: "select_one unpriced (Class ''description'') = Some ?description_el"
    by (simp add: unpriced_def card_elements)
  have 4: "select_one unpriced (Class ''price'') = Some ?price_el"
    by (simp add: unpriced_def card_elements)
  have 5: "''N/A'' = py_strip (filter (\<lambda>c. c \<noteq> CHR ''$'') (text_of ?price_el))"
    by (simp add: unpriced_def card_elements py_strip_def py_isspace_def)
  have none: "py_float ''N/A'' = None"
    by (simp add: py_eval)
  have rejected: "parse_single_product unpriced = Inl (ValueError ToFloat ''N/A'')"
    using price_conversion [OF 1 2 3 4 5] none by simp
  let ?title_el' = "the (select_one trailing_dollar (Class ''title''))"
  let ?description_el' = "the (select_one trailing_dollar (Class ''description''))"
  let ?price_el' = "the (select_one trailing_dollar (Class ''price''))"
  let ?review_el' = "the (select_one trailing_dollar (Class ''review-count''))"
  have 1: "select_one trailing_dollar (Class ''title'') = Some ?title_el'"
    by (simp add: trailing_dollar_def card_elements)
  have 2: "attrs ?title_el' ''title'' = Some ''Acer Aspire 3''"
    by (simp add: trailing_dollar_def card_elements)
  have 3: "select_one trailing_dollar (Class ''description'') = Some ?description_el'"
    by (simp add: trailing_dollar_def card_elements)
  have 4: "select_one trailing_dollar (Class ''price'') = Some ?price_el'"
    by (simp add: trailing_dollar_def card_elements)
  have 5: "''599.00'' = py_strip (filter (\<lambda>c. c \<noteq> CHR ''$'') (text_of ?price_el'))"
    by (simp add: trailing_dollar_def card_elements py_strip_def py_isspace_def)
  have some: "py_float ''599.00'' = Some (Finite 599)"
    by (simp add: py_eval)
  have 6: "select_one trailing_dollar (Class ''review-count'') = Some ?review_el'"
    by (simp add: trailing_dollar_def card_elements)
  have 7: "py_int (py_strip (takeWhile (\<lambda>c. c \<noteq> CHR '' '') (text_of ?review_el'))) = Some 12"
    by (simp add: trailing_dollar_def card_elements py_eval)
  have description: "py_strip (map (\<lambda>c. if c = CHR 0xA0 then CHR '' '' else c)
      (text_of ?description_el')) = ''A good laptop''"
    by (simp add: trailing_dollar_def card_elements py_strip_def py_isspace_def)
  have stars: "length (select trailing_dollar (ChildOf ''p'' ''ws-icon-star'')) = 3"
    by (simp add: trailing_dollar_def card_elements)
  from price_conversion [OF 1 2 3 4 5] some 6 7
  have "parse_single_product trailing_dollar =
      Inr \<lparr>title = ''Acer Aspire 3'',
           description = py_strip (map (\<lambda>c. if c = CHR 0xA0 then CHR '' '' else c)
                           (text_of ?description_el')),
           price = Finite 599,
           rating = int (length (select trailing_dollar (ChildOf ''p'' ''ws-icon-star''))),
           num_of_reviews = 12\<rparr>"
    by blast
  then have accepted: "parse_single_product trailing_dollar =
     Inr \<lparr>title = ''Acer Aspire 3'', description = ''A good laptop'', price = Finite 599,
          rating = 3, num_of_reviews = 12\<rparr>"
    by (simp add: description stars)
  have "map_option text_of (select_one trailing_dollar (Class ''price'')) = Some ''599.00 $''"
    by (simp add: trailing_dollar_def card_elements)
  moreover have "map_option text_of (select_one unpriced (Class ''price'')) = Some ''$N/A''"
    by (simp add: unpriced_def card_elements)
  ultimately show ?thesis using accepted rejected none some by simp
qed

text \<open>
  Against claim C6 as stated: the price text \<^verbatim>\<open>$5$9\<close> without its leading dollar sign is
  \<^verbatim>\<open>5$9\<close>, which \<^verbatim>\<open>float\<close> rejects, and yet the card is parsed, with the price 59.
\<close>

theorem double_dollar_price_is_accepted:
  "map_option text_of (select_one double_dollar (Class ''price'')) = Some ''$5$9'' \<and>
   py_float ''5$9'' = None \<and>
   parse_single_product double_dollar =
     Inr \<lparr>title = ''Acer Aspire 3'', description = ''A good laptop'', price = Finite 59,
          rating = 3, num_of_reviews = 12\<rparr>"
  by (simp add: double_dollar_def parse_card card_elements py_eval)

text \<open>
  Claim C7, as the code has it. Take a fragment that has a \<^verbatim>\<open>.title\<close> element with the
  title attribute \<open>T\<close>, a \<^verbatim>\<open>.description\<close> element, a \<^verbatim>\<open>.price\<close> element whose text converts
  to \<open>v\<close>, and a \<^verbatim>\<open>.review-count\<close> element. Let \<open>tok\<close> be the review text up to its first
  space character (U+0020), stripped of surrounding whitespace.
  \<^item> \<^verbatim>\<open>parse_single_product\<close> raises the \<^verbatim>\<open>ValueError\<close> of \<^verbatim>\<open>int\<close> for \<open>tok\<close> exactly when
    \<^verbatim>\<open>int\<close> rejects \<open>tok\<close>.
  \<^item> Every product it returns has the value of \<open>tok\<close> as its number of reviews.
  \<^item> When \<^verbatim>\<open>int\<close> reads \<open>tok\<close> as \<open>k\<close>, the product with title \<open>T\<close>, the normalised
    description, price \<open>v\<close>, the number of star icons as rating and \<open>k\<close> reviews is
    returned.
  \<^item> \<^verbatim>\<open>int\<close> reads a text made of digits only exactly when it has at most 4300 of them.
\<close>

theorem review_count_conversion:
  assumes "select_one product_soup (Class ''title'') = Some title_el"
    and "attrs title_el ''title'' = Some T"
    and "select_one product_soup (Class ''description'') = Some description_el"
    and "select_one product_soup (Class ''price'') = Some price_el"
    and "py_float (py_strip (py_replace CHR ''$'' [] (text_of price_el))) = Some v"
    and "select_one product_soup (Class ''review-count'') = Some review_el"
    and "tok = py_strip (takeWhile (\<lambda>c. c \<noteq> CHR '' '') (text_of review_el))"
  shows "(parse_single_product product_soup = Inl (ValueError ToInt tok)) = (py_int tok = None) \<and>
         (\<forall>product. parse_single_product product_soup = Inr product \<longrightarrow>
            py_int tok = Some (num_of_reviews product)) \<and>
         (\<forall>k. py_int tok = Some k \<longrightarrow>
            parse_single_product product_soup =
              Inr \<lparr>title = T,
                   description = py_strip (map (\<lambda>c. if c = CHR 0xA0 then CHR '' '' else c)
                                   (text_of description_el)),
                   price = v,
                   rating = int (length (select product_soup (ChildOf ''p'' ''ws-icon-star''))),
                   num_of_reviews = k\<rparr>) \<and>
         (\<forall>digits. digits \<noteq> [] \<and> list_all is_digit digits \<longrightarrow>
            py_int digits =
              (if length digits \<le> 4300 then Some (int (digits_val digits)) else None))"
proof -
  have price: "py_float (py_strip (filter (\<lambda>c. c \<noteq> CHR ''$'') (text_of price_el))) = Some v"
    using assms(5) by (simp add: py_replace_empty)
  note found = parse_single_product_found [OF assms(1,2,3,4,6), unfolded price, folded assms(7)]
  have first: "(parse_single_product product_soup = Inl (ValueError ToInt tok)) = (py_int tok = None)"
    using found by (cases "py_int tok") simp_all
  have second: "\<forall>product. parse_single_product product_soup = Inr product \<longrightarrow>
      py_int tok = Some (num_of_reviews product)"
    using found by (cases "py_int tok") auto
  have third: "\<forall>k. py_int tok = Some k \<longrightarrow>
      parse_single_product product_soup =
        Inr \<lparr>title = T,
             description = py_strip (map (\<lambda>c. if c = CHR 0xA0 then CHR '' '' else c)
                             (text_of description_el)),
             price = v,
             rating = int (length (select product_soup (ChildOf ''p'' ''ws-icon-star''))),
             num_of_reviews = k\<rparr>"
    using found by simp
  have fourth: "\<forall>digits. digits \<noteq> [] \<and> list_all is_digit digits \<longrightarrow>
      py_int digits = (if length digits \<le> 4300 then Some (int (digits_val digits)) else None)"
    using py_int_digits by (simp add: INT_MAX_STR_DIGITS_def)
  from first second third fourth show ?thesis by blast
qed

text \<open>
  The card with the review text \<^verbatim>\<open>12\<close>, a line break, a space and \<^verbatim>\<open>reviews\<close>: the piece
  before the space is \<^verbatim>\<open>12\<close> and the line break, which is stripped, and the card is
  parsed with 12 reviews. The card with the review text \<^verbatim>\<open>no reviews\<close>: the token is
  \<^verbatim>\<open>no\<close>, and the card is rejected.
\<close>

theorem review_count_conversion_witness:
  "map_option text_of (select_one wrapped (Class ''review-count'')) =
     Some (''12'' @ [CHR 0x0A] @ '' reviews'') \<and>
   py_int ''12'' = Some 12 \<and>
   parse_single_product wrapped =
     Inr \<lparr>title = ''Acer Aspire 3'', description = ''A good laptop'', price = Finite 599,
          rating = 3, num_of_reviews = 12\<rparr> \<and>
   map_option text_of (select_one unreviewed (Class ''review-count'')) = Some ''no reviews'' \<and>
   py_int ''no'' = None \<and>
   parse_single_product unreviewed = Inl (ValueError ToInt ''no'')"
proof -
  let ?title_el = "the (select_one unreviewed (Class ''title''))"
  let ?description_el = "the (select_one unreviewed (Class ''description''))"
  let ?price_el = "the (select_one unreviewed (Class ''price''))"
  let ?review_el = "the (select_one unreviewed (Class ''review-count''))"
  have 1: "select_one unreviewed (Class ''title'') = Some ?title_el"
    by (simp add: unreviewed_def card_elements)
  have 2: "attrs ?title_el ''title'' = Some ''Dell Latitude''"
    by (simp add: unreviewed_def card_elements)
  have 3: "select_one unreviewed (Class ''description'') = Some ?description_el"
    by (simp add: unreviewed_def card_elements)
  have 4: "select_one unreviewed (Class ''price'') = Some ?price_el"
    by (simp add: unreviewed_def card_elements)
  have 5: "py_float (py_strip (py_replace CHR ''$'' [] (text_of ?price_el))) = Some (Finite 431)"
    by (simp add: unreviewed_def card_elements py_eval)
  have 6: "select_one unreviewed (Class ''review-count'') = Some ?review_el"
    by (simp add: unreviewed_def card_elements)
  have 7: "''no'' = py_strip (takeWhile (\<lambda>c. c \<noteq> CHR '' '') (text_of ?review_el))"
    by (simp add: unreviewed_def card_elements py_strip_def py_isspace_def)
  have none: "py_int ''no'' = None"
    by (simp add: py_eval)
  have rejected: "parse_single_product unreviewed = Inl (ValueError ToInt ''no'')"
    using review_count_conversion [OF 1 2 3 4 5 6 7] none by simp
  let ?title_el' = "the (select_one wrapped (Class ''title''))"
  let ?description_el' = "the (select_one wrapped (Class ''description''))"
  let ?price_el' = "the (select_one wrapped (Class ''price''))"
  let ?review_el' = "the (select_one wrapped (Class ''review-count''))"
  have 1: "select_one wrapped (Class ''title'') = Some ?title_el'"
    by (simp add: wrapped_def card_elements)
  have 2: "attrs ?title_el' ''title'' = Some ''Acer Aspire 3''"
    by (simp add: wrapped_def card_elements)
  have 3: "select_one wrapped (Class ''description'') = Some ?description_el'"
    by (simp add: wrapped_def card_elements)
  have 4: "select_one wrapped (Class ''price'') = Some ?price_el'"
    by (simp add: wrapped_def card_elements)
  have 5: "py_float (py_strip (py_replace CHR ''$'' [] (text_of ?price_el'))) = Some (Finite 599)"
    by (simp add: wrapped_def card_elements py_eval)
  have 6: "select_one wrapped (Class ''review-count'') = Some ?review_el'"
    by (simp add: wrapped_def card_elements)
  have 7: "''12'' = py_strip (takeWhile (\<lambda>c. c \<noteq> CHR '' '') (text_of ?review_el'))"
    by (simp add: wrapped_def card_elements py_strip_def py_isspace_def)
  have some: "py_int ''12'' = Some 12"
    by (simp add: py_eval)
  have description: "py_strip (map (\<lambda>c. if c = CHR 0xA0 then CHR '' '' else c)
      (text_of ?description_el')) = ''A good laptop''"
    by (simp add: wrapped_def card_elements py_strip_def py_isspace_def)
  have stars: "length (select wrapped (ChildOf ''p'' ''ws-icon-star'')) = 3"
    by (simp add: wrapped_def card_elements)
  from review_count_conversion [OF 1 2 3 4 5 6 7] some
  have "parse_single_product wrapped =
      Inr \<lparr>title = ''Acer Aspire 3'',
           description = py_strip (map (\<lambda>c. if c = CHR 0xA0 then CHR '' '' else c)
                           (text_of ?description_el')),
           price = Finite 599,
           rating = int (length (select wrapped (ChildOf ''p'' ''ws-icon-star''))),
           num_of_reviews = 12\<rparr>"
    by blast
  then have accepted: "parse_single_product wrapped =
     Inr \<lparr>title = ''Acer Aspire 3'', description = ''A good laptop'', price = Finite 599,
          rating = 3, num_of_reviews = 12\<rparr>"
    by (simp add: description stars)
  have "map_option text_of (select_one wrapped (Class ''review-count'')) =
      Some (''12'' @ [CHR 0x0A] @ '' reviews'')"
    by (simp add: wrapped_def card_elements)
  moreover have "map_option text_of (select_one unreviewed (Class ''review-count'')) =
      Some ''no reviews''"
    by (simp add: unreviewed_def card_elements)
  ultimately show ?thesis using accepted rejected none some by simp
qed

text \<open>
  Against claim C7 as stated: in the review text \<^verbatim>\<open>12<TAB>reviews\<close> the first token
  between whitespace is \<^verbatim>\<open>12\<close>, which \<^verbatim>\<open>int\<close> accepts, and yet the card is rejected: the
  text holds no space character, so the whole of it is handed to \<^verbatim>\<open>int\<close>.
\<close>

theorem tab_separated_count_is_rejected:
  "map_option text_of (select_one tabbed (Class ''review-count'')) =
     Some (''12'' @ [CHR 0x09] @ ''reviews'') \<and>
   first_whitespace_token (''12'' @ [CHR 0x09] @ ''reviews'') = ''12'' \<and>
   py_int ''12'' = Some 12 \<and>
   parse_single_product tabbed = Inl (ValueError ToInt (''12'' @ [CHR 0x09] @ ''reviews''))"
  by (simp add: tabbed_def parse_card card_elements py_eval first_whitespace_token_def)

section \<open>The Page Extractor\<close>

lemma comprehension_Inr_iff:
  "comprehension f xs = Inr ys \<longleftrightarrow> list_all2 (\<lambda>x y. f x = Inr y) xs ys"
proof (induction xs arbitrary: ys)
  case Nil
  show ?case by auto
next
  case (Cons x xs)
  have "comprehension f (x # xs) = Inr ys \<longleftrightarrow>
        (\<exists>y zs. f x = Inr y \<and> comprehension f xs = Inr zs \<and> ys = y # zs)"
    by (auto split: sum.splits)
  also have "\<dots> \<longleftrightarrow> (\<exists>y zs. f x = Inr y \<and> list_all2 (\<lambda>x y. f x = Inr y) xs zs \<and> ys = y # zs)"
    by (simp add: Cons.IH)
  also have "\<dots> \<longleftrightarrow> list_all2 (\<lambda>x y. f x = Inr y) (x # xs) ys"
    by (auto simp: list_all2_Cons1)
  finally show ?case .
qed

lemma comprehension_Inl:
  "x \<in> set xs \<Longrightarrow> f x = Inl e \<Longrightarrow>
   \<exists>e' x'. comprehension f xs = Inl e' \<and> x' \<in> set xs \<and> f x' = Inl e'"
  by (induction xs) (auto split: sum.splits)

text \<open>
  Claim C8. \<^verbatim>\<open>parse_product_page\<close> returns a sequence of products exactly when that
  sequence is, position by position, what \<^verbatim>\<open>parse_single_product\<close> returns for the
  \<^verbatim>\<open>.thumbnail\<close> elements of the page in document order; in particular, for a page with
  the thumbnails \<open>A\<close>, \<open>B\<close>, \<open>C\<close> that parse to \<open>a\<close>, \<open>b\<close>, \<open>c\<close> it returns \<open>[a, b, c]\<close>.
\<close>

theorem page_in_document_order:
  "(parse_product_page page_soup = Inr products \<longleftrightarrow>
      list_all2 (\<lambda>thumbnail product. parse_single_product thumbnail = Inr product)
        (select page_soup (Class ''thumbnail'')) products) \<and>
   (select page_soup (Class ''thumbnail'') = [A, B, C] \<and>
    parse_single_product A = Inr a \<and> parse_single_product B = Inr b \<and>
    parse_single_product C = Inr c \<longrightarrow>
      parse_product_page page_soup = Inr [a, b, c])"
  by (simp add: parse_product_page_def comprehension_Inr_iff)

text \<open>A page with three cards.\<close>

theorem page_in_document_order_witness:
  "select (document [acer, lenovo, hp]) (Class ''thumbnail'') = [acer, lenovo, hp] \<and>
   parse_product_page (document [acer, lenovo, hp]) =
     Inr [\<lparr>title = ''Acer Aspire 3'', description = ''A good laptop'', price = Finite 599,
           rating = 3, num_of_reviews = 12\<rparr>,
          \<lparr>title = ''Lenovo V110'', description = ''15.6 HD'', price = Finite (32194 / 100),
           rating = 2, num_of_reviews = 5\<rparr>,
          \<lparr>title = ''HP 250 G3'', description = ''Entry level notebook'',
           price = Finite (52099 / 100), rating = 0, num_of_reviews = 1\<rparr>]"
proof -
  have thumbnails: "select (document [acer, lenovo, hp]) (Class ''thumbnail'') = [acer, lenovo, hp]"
    unfolding acer_def lenovo_def hp_def by (rule thumbnails_of_cards)
  from page_in_document_order [of "document [acer, lenovo, hp]" _ acer lenovo hp]
    thumbnails parse_acer parse_lenovo parse_hp
  have "parse_product_page (document [acer, lenovo, hp]) =
     Inr [\<lparr>title = ''Acer Aspire 3'', description = ''A good laptop'', price = Finite 599,
           rating = 3, num_of_reviews = 12\<rparr>,
          \<lparr>title = ''Lenovo V110'', description = ''15.6 HD'', price = Finite (32194 / 100),
           rating = 2, num_of_reviews = 5\<rparr>,
          \<lparr>title = ''HP 250 G3'', description = ''Entry level notebook'',
           price = Finite (52099 / 100), rating = 0, num_of_reviews = 1\<rparr>]"
    by blast
  with thumbnails show ?thesis by simp
qed

text \<open>
  Claim C5. If \<^verbatim>\<open>parse_single_product\<close> raises for any \<^verbatim>\<open>.thumbnail\<close> element of a page,
  then \<^verbatim>\<open>parse_product_page\<close> raises for the page and returns no products at all: the
  exception is one that comes from the shape of the markup, and it is the exception of a
  thumbnail of the page.
\<close>

theorem malformed_item_fails_page:
  assumes "thumbnail \<in> set (select page_soup (Class ''thumbnail''))"
    and "parse_single_product thumbnail = Inl e"
  shows "\<exists>e' bad. parse_product_page page_soup = Inl e' \<and> ParseError e' \<and>
           bad \<in> set (select page_soup (Class ''thumbnail'')) \<and>
           parse_single_product bad = Inl e'"
proof -
  from comprehension_Inl
    [of thumbnail "select page_soup (Class ''thumbnail'')" parse_single_product e] assms
  obtain e' bad where "parse_product_page page_soup = Inl e'"
    and "bad \<in> set (select page_soup (Class ''thumbnail''))"
    and "parse_single_product bad = Inl e'"
    by (auto simp: parse_product_page_def)
  then show ?thesis using parse_single_product_ParseError by blast
qed

text \<open>A page whose second card is priced \<^verbatim>\<open>$N/A\<close>.\<close>

theorem malformed_item_fails_page_witness:
  "unpriced \<in> set (select (document [acer, unpriced, lenovo]) (Class ''thumbnail'')) \<and>
   parse_single_product unpriced = Inl (ValueError ToFloat ''N/A'') \<and>
   (\<exists>e'. parse_product_page (document [acer, unpriced, lenovo]) = Inl e' \<and> ParseError e')"
proof -
  have thumbnails:
    "select (document [acer, unpriced, lenovo]) (Class ''thumbnail'') = [acer, unpriced, lenovo]"
    unfolding acer_def lenovo_def unpriced_def by (rule thumbnails_of_cards)
  then have member: "unpriced \<in> set (select (document [acer, unpriced, lenovo]) (Class ''thumbnail''))"
    by simp
  from malformed_item_fails_page [OF member parse_unpriced]
  have "\<exists>e'. parse_product_page (document [acer, unpriced, lenovo]) = Inl e' \<and> ParseError e'"
    by blast
  with member parse_unpriced show ?thesis by simp
qed

section \<open>The Output Sink\<close>

lemma product_row_not_header:
  "product_row product \<noteq>
     [StrCell ''title'', StrCell ''description'', StrCell ''price'', StrCell ''rating'',
      StrCell ''num_of_reviews'']"
  by (simp add: product_row_def)

lemma count_header_rows:
  "count_list (map product_row products)
     [StrCell ''title'', StrCell ''description'', StrCell ''price'', StrCell ''rating'',
      StrCell ''num_of_reviews''] = 0"
  by (induction products) (auto simp: product_row_not_header)

lemma rewrite_same_entry:
  "files st path = Some e \<Longrightarrow> st\<lparr>files := (files st)(path \<mapsto> e)\<rparr> = st"
  by (simp add: fun_upd_idem)

text \<open>
  A call that returns has opened the file; it leaves the rows, the header if there were
  none, and the products.
\<close>

lemma save_products_to_csv_returned:
  assumes "save_products_to_csv products path st = Some (Inr (), st')"
  shows "(files st path = None \<or> (\<exists>rs. files st path = Some (RegularFile True rs))) \<and>
         st' = st\<lparr>files := (files st)(path \<mapsto> RegularFile True
                  (rows_of st path @
                   (if rows_of st path = []
                    then [[StrCell ''title'', StrCell ''description'', StrCell ''price'',
                           StrCell ''rating'', StrCell ''num_of_reviews'']]
                    else []) @
                   map product_row products))\<rparr>"
proof (cases "files st path")
  case None
  with assms show ?thesis
    by (auto simp: save_products_to_csv_def isfile_def open_append_def write_rows_def rows_of_def
        Let_def split: if_splits)
next
  case (Some e)
  show ?thesis
  proof (cases e)
    case Directory
    with Some assms show ?thesis
      by (simp add: save_products_to_csv_def isfile_def open_append_def)
  next
    case (RegularFile w rs)
    with Some assms have w
      by (auto simp: save_products_to_csv_def open_append_def Let_def split: if_splits)
    from assms Some RegularFile \<open>w\<close> show ?thesis
      by (auto simp: save_products_to_csv_def isfile_def open_append_def write_rows_def
          rows_of_def Let_def rewrite_same_entry split: if_splits)
  qed
qed

text \<open>A destination that can be opened, on a device with room: the call returns.\<close>

lemma save_products_to_csv_returns:
  assumes "files st path = None \<and> can_create st \<or> (\<exists>rs. files st path = Some (RegularFile True rs))"
    and "space_left st"
  shows "save_products_to_csv products path st =
           Some (Inr (), st\<lparr>files := (files st)(path \<mapsto> RegularFile True
                  (rows_of st path @
                   (if rows_of st path = []
                    then [[StrCell ''title'', StrCell ''description'', StrCell ''price'',
                           StrCell ''rating'', StrCell ''num_of_reviews'']]
                    else []) @
                   map product_row products))\<rparr>)"
proof (cases "files st path")
  case None
  with assms show ?thesis
    by (simp add: save_products_to_csv_def isfile_def open_append_def write_rows_def rows_of_def
        Let_def)
next
  case (Some e)
  with assms(1) obtain rs where rs: "files st path = Some (RegularFile True rs)" by auto
  from rs assms(2) show ?thesis
    by (simp add: save_products_to_csv_def isfile_def open_append_def write_rows_def rows_of_def
        Let_def rewrite_same_entry)
qed

lemma save_products_to_csv_total: "save_products_to_csv products path st \<noteq> None"
  by (simp add: save_products_to_csv_def Let_def split: sum.splits)

lemma open_append_frame:
  "open_append path st = Inr st' \<Longrightarrow>
   current_url st' = current_url st \<and> sessions st' = sessions st \<and> quits st' = quits st \<and>
   space_left st' = space_left st \<and> can_create st' = can_create st"
  by (auto simp: open_append_def split: option.splits entry.splits if_splits)

lemma write_rows_frame:
  "write_rows path new_rows st = Inr st' \<Longrightarrow>
   current_url st' = current_url st \<and> sessions st' = sessions st \<and> quits st' = quits st \<and>
   space_left st' = space_left st \<and> can_create st' = can_create st"
  by (auto simp: write_rows_def split: option.splits entry.splits if_splits)

lemma save_products_to_csv_frame:
  assumes "save_products_to_csv products path st = Some (result, st')"
  shows "sessions st' = sessions st \<and> quits st' = quits st \<and> space_left st' = space_left st \<and>
         can_create st' = can_create st"
proof (cases "open_append path st")
  case (Inl e)
  with assms show ?thesis by (simp add: save_products_to_csv_def Let_def)
next
  case (Inr st1)
  note opened = open_append_frame [OF Inr]
  let ?new = "(if \<not> isfile st path \<or>
                  (if isfile st path
                   then (case files st path of None \<Rightarrow> True | Some Directory \<Rightarrow> True
                         | Some (RegularFile w rs) \<Rightarrow> rs = [])
                   else True)
               then [[StrCell ''title'', StrCell ''description'', StrCell ''price'',
                      StrCell ''rating'', StrCell ''num_of_reviews'']]
               else []) @ map product_row products"
  show ?thesis
  proof (cases "write_rows path ?new st1")
    case (Inl e)
    with assms Inr opened show ?thesis by (simp add: save_products_to_csv_def Let_def)
  next
    case (Inr st2)
    with assms \<open>open_append path st = Inr st1\<close> have "st' = st2"
      by (simp add: save_products_to_csv_def Let_def)
    with write_rows_frame [OF Inr] opened show ?thesis by simp
  qed
qed

text \<open>
  Claim C4. A call of \<^verbatim>\<open>save_products_to_csv\<close> that returns leaves in the destination the
  rows it held, then the row \<^verbatim>\<open>title, description, price, rating, num_of_reviews\<close> if and
  only if the destination did not exist or was empty, then one row per product. The
  call returns whenever the destination can be opened for appending and the device has
  room. So two calls in sequence on a destination that did not exist or was empty both
  return and leave exactly the header followed by the rows of the first and of the
  second call: the header occurs once, and there are \<open>1 + r\<^sub>1 + r\<^sub>2\<close> rows.
\<close>

theorem header_written_once:
  "(save_products_to_csv products path st = Some (Inr (), st') \<longrightarrow>
      files st' path =
        Some (RegularFile True
          (rows_of st path @
           (if files st path = None \<or> files st path = Some (RegularFile True [])
            then [[StrCell ''title'', StrCell ''description'', StrCell ''price'',
                   StrCell ''rating'', StrCell ''num_of_reviews'']]
            else []) @
           map product_row products))) \<and>
   ((files st path = None \<and> can_create st \<or> (\<exists>rs. files st path = Some (RegularFile True rs))) \<and>
    space_left st \<longrightarrow>
      (\<exists>st1. save_products_to_csv products path st = Some (Inr (), st1))) \<and>
   ((files st path = None \<and> can_create st \<or> files st path = Some (RegularFile True [])) \<and>
    space_left st \<longrightarrow>
      (\<exists>st1 st2.
         save_products_to_csv first path st = Some (Inr (), st1) \<and>
         save_products_to_csv second path st1 = Some (Inr (), st2) \<and>
         files st2 path =
           Some (RegularFile True
             ([StrCell ''title'', StrCell ''description'', StrCell ''price'',
               StrCell ''rating'', StrCell ''num_of_reviews''] #
              map product_row first @ map product_row second)) \<and>
         count_list (rows_of st2 path)
           [StrCell ''title'', StrCell ''description'', StrCell ''price'',
            StrCell ''rating'', StrCell ''num_of_reviews''] = 1 \<and>
         length (rows_of st2 path) = 1 + length first + length second))"
proof -
  let ?header = "[StrCell ''title'', StrCell ''description'', StrCell ''price'',
                  StrCell ''rating'', StrCell ''num_of_reviews'']"
  have one: "files st' path =
        Some (RegularFile True
          (rows_of st path @
           (if files st path = None \<or> files st path = Some (RegularFile True [])
            then [?header] else []) @
           map product_row products))"
    if returned: "save_products_to_csv products path st = Some (Inr (), st')"
  proof -
    from save_products_to_csv_returned [OF returned]
    have entry: "files st path = None \<or> (\<exists>rs. files st path = Some (RegularFile True rs))"
      and st': "st' = st\<lparr>files := (files st)(path \<mapsto> RegularFile True
                  (rows_of st path @ (if rows_of st path = [] then [?header] else []) @
                   map product_row products))\<rparr>"
      by simp_all
    from entry have "(rows_of st path = []) =
        (files st path = None \<or> files st path = Some (RegularFile True []))"
      by (auto simp: rows_of_def)
    with st' show ?thesis by simp
  qed
  have two: "\<exists>st1. save_products_to_csv products path st = Some (Inr (), st1)"
    if "files st path = None \<and> can_create st \<or> (\<exists>rs. files st path = Some (RegularFile True rs))"
      and "space_left st"
    using save_products_to_csv_returns [OF that] by blast
  have three: "\<exists>st1 st2.
         save_products_to_csv first path st = Some (Inr (), st1) \<and>
         save_products_to_csv second path st1 = Some (Inr (), st2) \<and>
         files st2 path = Some (RegularFile True (?header # map product_row first @ map product_row second)) \<and>
         count_list (rows_of st2 path) ?header = 1 \<and>
         length (rows_of st2 path) = 1 + length first + length second"
    if fresh: "files st path = None \<and> can_create st \<or> files st path = Some (RegularFile True [])"
      and room: "space_left st"
  proof -
    let ?st1 = "st\<lparr>files := (files st)(path \<mapsto> RegularFile True (?header # map product_row first))\<rparr>"
    let ?st2 = "?st1\<lparr>files := (files ?st1)(path \<mapsto> RegularFile True
                  (?header # map product_row first @ map product_row second))\<rparr>"
    from fresh have empty: "rows_of st path = []" by (auto simp: rows_of_def)
    from fresh have openable:
      "files st path = None \<and> can_create st \<or> (\<exists>rs. files st path = Some (RegularFile True rs))"
      by auto
    have call1: "save_products_to_csv first path st = Some (Inr (), ?st1)"
      using save_products_to_csv_returns [OF openable room, of first] by (simp add: empty)
    have openable1:
      "files ?st1 path = None \<and> can_create ?st1 \<or> (\<exists>rs. files ?st1 path = Some (RegularFile True rs))"
      by simp
    have rows1: "rows_of ?st1 path = ?header # map product_row first"
      by (simp add: rows_of_def)
    have room1: "space_left ?st1" using room by simp
    have call2: "save_products_to_csv second path ?st1 = Some (Inr (), ?st2)"
      using save_products_to_csv_returns [OF openable1 room1, of second] by (simp add: rows1)
    have "files ?st2 path =
        Some (RegularFile True (?header # map product_row first @ map product_row second))"
      by simp
    moreover have "rows_of ?st2 path = ?header # map product_row first @ map product_row second"
      by (simp add: rows_of_def)
    ultimately show ?thesis using call1 call2
      by (intro exI [of _ ?st1] exI [of _ ?st2]) (simp add: count_header_rows)
  qed
  from one two three show ?thesis by blast
qed

text \<open>Two runs that each save one product to a file that does not exist yet.\<close>

theorem header_written_once_witness:
  "files initial_state ''laptops.csv'' = None \<and> can_create initial_state \<and>
   space_left initial_state \<and>
   (\<exists>st1 st2.
      save_products_to_csv
        [\<lparr>title = ''Acer Aspire 3'', description = ''A good laptop'', price = Finite 599,
          rating = 3, num_of_reviews = 12\<rparr>] ''laptops.csv'' initial_state = Some (Inr (), st1) \<and>
      save_products_to_csv
        [\<lparr>title = ''Lenovo V110'', description = ''15.6 HD'', price = Finite (32194 / 100),
          rating = 2, num_of_reviews = 5\<rparr>] ''laptops.csv'' st1 = Some (Inr (), st2) \<and>
      files st2 ''laptops.csv'' =
        Some (RegularFile True
          [[StrCell ''title'', StrCell ''description'', StrCell ''price'', StrCell ''rating'',
            StrCell ''num_of_reviews''],
           [StrCell ''Acer Aspire 3'', StrCell ''A good laptop'', FloatCell (Finite 599),
            IntCell 3, IntCell 12],
           [StrCell ''Lenovo V110'', StrCell ''15.6 HD'', FloatCell (Finite (32194 / 100)),
            IntCell 2, IntCell 5]]))"
proof -
  have fresh: "files initial_state ''laptops.csv'' = None" "can_create initial_state"
    "space_left initial_state"
    by (simp_all add: initial_state_def)
  with header_written_once [of "[]" "''laptops.csv''" initial_state initial_state
        "[\<lparr>title = ''Acer Aspire 3'', description = ''A good laptop'', price = Finite 599,
           rating = 3, num_of_reviews = 12\<rparr>]"
        "[\<lparr>title = ''Lenovo V110'', description = ''15.6 HD'', price = Finite (32194 / 100),
           rating = 2, num_of_reviews = 5\<rparr>]"]
  obtain st1 st2 where
    "save_products_to_csv
       [\<lparr>title = ''Acer Aspire 3'', description = ''A good laptop'', price = Finite 599,
         rating = 3, num_of_reviews = 12\<rparr>] ''laptops.csv'' initial_state = Some (Inr (), st1)"
    and "save_products_to_csv
       [\<lparr>title = ''Lenovo V110'', description = ''15.6 HD'', price = Finite (32194 / 100),
         rating = 2, num_of_reviews = 5\<rparr>] ''laptops.csv'' st1 = Some (Inr (), st2)"
    and "files st2 ''laptops.csv'' =
      Some (RegularFile True
        ([StrCell ''title'', StrCell ''description'', StrCell ''price'', StrCell ''rating'',
          StrCell ''num_of_reviews''] #
         map product_row
           [\<lparr>title = ''Acer Aspire 3'', description = ''A good laptop'', price = Finite 599,
             rating = 3, num_of_reviews = 12\<rparr>] @
         map product_row
           [\<lparr>title = ''Lenovo V110'', description = ''15.6 HD'', price = Finite (32194 / 100),
             rating = 2, num_of_reviews = 5\<rparr>]))"
    by blast
  with fresh show ?thesis by (auto simp: product_row_def)
qed

text \<open>
  Claim C10, as the code has it. Called with no products on a destination that does
  not exist and can be created, or that is an empty file the process may write to, on a
  device with room, \<^verbatim>\<open>save_products_to_csv\<close> returns and leaves a file that holds the row
  \<^verbatim>\<open>title, description, price, rating, num_of_reviews\<close> and nothing else.
\<close>

theorem empty_sequence_writes_header:
  assumes "files st path = None \<and> can_create st \<or> files st path = Some (RegularFile True [])"
    and "space_left st"
  shows "save_products_to_csv [] path st =
           Some (Inr (),
                 st\<lparr>files := (files st)(path \<mapsto> RegularFile True
                      [[StrCell ''title'', StrCell ''description'', StrCell ''price'',
                        StrCell ''rating'', StrCell ''num_of_reviews'']])\<rparr>)"
proof -
  from assms(1) have empty: "rows_of st path = []" by (auto simp: rows_of_def)
  from assms(1) have openable:
    "files st path = None \<and> can_create st \<or> (\<exists>rs. files st path = Some (RegularFile True rs))"
    by auto
  from save_products_to_csv_returns [OF openable assms(2), of "[]"] show ?thesis
    by (simp add: empty)
qed

text \<open>A category without products, saved to a file that exists, is empty and may be written to.\<close>

theorem empty_sequence_writes_header_witness:
  "files (initial_state\<lparr>files := [''touch.csv'' \<mapsto> RegularFile True []]\<rparr>) ''touch.csv'' =
     Some (RegularFile True []) \<and>
   space_left (initial_state\<lparr>files := [''touch.csv'' \<mapsto> RegularFile True []]\<rparr>) \<and>
   save_products_to_csv [] ''touch.csv''
       (initial_state\<lparr>files := [''touch.csv'' \<mapsto> RegularFile True []]\<rparr>) =
     Some (Inr (),
           initial_state\<lparr>files := [''touch.csv'' \<mapsto> RegularFile True
             [[StrCell ''title'', StrCell ''description'', StrCell ''price'', StrCell ''rating'',
               StrCell ''num_of_reviews'']]]\<rparr>)"
proof -
  let ?st = "initial_state\<lparr>files := [''touch.csv'' \<mapsto> RegularFile True []]\<rparr>"
  have entry: "files ?st ''touch.csv'' = None \<and> can_create ?st \<or>
      files ?st ''touch.csv'' = Some (RegularFile True [])"
    by simp
  have room: "space_left ?st"
    by (simp add: initial_state_def)
  from empty_sequence_writes_header [OF entry room] room show ?thesis by simp
qed

text \<open>
  Against claim C10 as stated: the destination exists and is empty, but the process may
  not write to it. The call with no products fails: \<^verbatim>\<open>open\<close> raises \<^verbatim>\<open>PermissionError\<close>,
  and no header is written.
\<close>

theorem empty_sequence_fails_on_read_only_file:
  "files (initial_state\<lparr>files := [''touch.csv'' \<mapsto> RegularFile False []]\<rparr>) ''touch.csv'' =
     Some (RegularFile False []) \<and>
   save_products_to_csv [] ''touch.csv''
       (initial_state\<lparr>files := [''touch.csv'' \<mapsto> RegularFile False []]\<rparr>) =
     Some (Inl PermissionError, initial_state\<lparr>files := [''touch.csv'' \<mapsto> RegularFile False []]\<rparr>)"
  by (simp add: save_products_to_csv_def isfile_def open_append_def)

section \<open>The Pagination Driver and the Catalog Runner: what a call leaves unchanged\<close>

lemma more_button_loop_stop:
  "load_more (web (current_url st)) (expansions st) \<noteq> Completes \<Longrightarrow>
   more_button_loop web st = Some (snd (more_button web st))"
  by (subst more_button_loop.simps) (auto simp: more_button_def split: attempt.splits)

lemma more_button_loop_step:
  "load_more (web (current_url st)) (expansions st) = Completes \<Longrightarrow>
   more_button_loop web st = more_button_loop web (st\<lparr>expansions := Suc (expansions st)\<rparr>)"
  by (subst more_button_loop.simps) (simp add: more_button_def)

lemma more_button_fails:
  "load_more (web (current_url st)) (expansions st) \<noteq> Completes \<Longrightarrow>
   \<exists>line. snd (more_button web st) = st\<lparr>stdout := stdout st @ [line]\<rparr>"
  by (auto simp: more_button_def print_def split: attempt.splits)

lemma more_button_loop_runs:
  assumes "\<forall>i<n. load_more (web (current_url st)) (expansions st + i) = Completes"
    and "load_more (web (current_url st)) (expansions st + n) \<noteq> Completes"
  shows "\<exists>line. more_button_loop web st =
           Some (st\<lparr>expansions := expansions st + n, stdout := stdout st @ [line]\<rparr>)"
  using assms
proof (induction n arbitrary: st)
  case 0
  then have stop: "load_more (web (current_url st)) (expansions st) \<noteq> Completes" by simp
  from more_button_fails [of web st] stop obtain line
    where "snd (more_button web st) = st\<lparr>stdout := stdout st @ [line]\<rparr>" by blast
  with more_button_loop_stop [of web st] stop show ?case by auto
next
  case (Suc n)
  let ?st = "st\<lparr>expansions := Suc (expansions st)\<rparr>"
  from Suc.prems(1) have first: "load_more (web (current_url st)) (expansions st) = Completes"
    by (metis add.right_neutral zero_less_Suc)
  have "\<forall>i<n. load_more (web (current_url ?st)) (expansions ?st + i) = Completes"
    using Suc.prems(1) by (auto simp: less_Suc_eq_0_disj)
  moreover have "load_more (web (current_url ?st)) (expansions ?st + n) \<noteq> Completes"
    using Suc.prems(2) by simp
  ultimately obtain line where
    "more_button_loop web ?st = Some (?st\<lparr>expansions := expansions ?st + n, stdout := stdout ?st @ [line]\<rparr>)"
    using Suc.IH [of ?st] by blast
  with more_button_loop_step [of web st] first show ?case by auto
qed

lemma more_button_loop_returns:
  assumes "load_more (web (current_url st)) (expansions st + n) \<noteq> Completes"
  shows "\<exists>m line. more_button_loop web st =
           Some (st\<lparr>expansions := expansions st + m, stdout := stdout st @ [line]\<rparr>)"
proof -
  let ?P = "\<lambda>k. load_more (web (current_url st)) (expansions st + k) \<noteq> Completes"
  from assms have "?P n" .
  then have least: "?P (LEAST k. ?P k)" by (rule LeastI)
  have "\<forall>i<(LEAST k. ?P k). load_more (web (current_url st)) (expansions st + i) = Completes"
    using not_less_Least by blast
  with least more_button_loop_runs [of "LEAST k. ?P k" web st] show ?thesis by blast
qed

lemma more_button_frame:
  "more_button web st = (again, st') \<Longrightarrow>
   current_url st' = current_url st \<and> sessions st' = sessions st \<and> quits st' = quits st \<and>
   files st' = files st"
  by (auto simp: more_button_def print_def split: attempt.splits)

lemma more_button_loop_frame:
  assumes "more_button_loop web st = Some st'"
  shows "current_url st' = current_url st \<and> sessions st' = sessions st \<and>
         quits st' = quits st \<and> files st' = files st"
proof (rule more_button_loop.raw_induct
    [where P = "\<lambda>web st st'. current_url st' = current_url st \<and> sessions st' = sessions st \<and>
         quits st' = quits st \<and> files st' = files st", OF _ assms])
  fix loop :: "site \<Rightarrow> state \<Rightarrow> state option" and web st st'
  assume IH: "\<And>w s y. loop w s = Some y \<Longrightarrow>
      current_url y = current_url s \<and> sessions y = sessions s \<and> quits y = quits s \<and>
      files y = files s"
    and body: "(let (again, st1) = more_button web st
                in if again then loop web st1 else Some st1) = Some st'"
  obtain again st1 where mb: "more_button web st = (again, st1)"
    by (cases "more_button web st")
  note frame = more_button_frame [OF mb]
  show "current_url st' = current_url st \<and> sessions st' = sessions st \<and>
        quits st' = quits st \<and> files st' = files st"
  proof (cases again)
    case True
    with body mb have "loop web st1 = Some st'" by simp
    from IH [OF this] frame show ?thesis by simp
  next
    case False
    with body mb have "st' = st1" by simp
    with frame show ?thesis by simp
  qed
qed

lemma accept_cookies_frame:
  "current_url (accept_cookies web st) = current_url st \<and>
   expansions (accept_cookies web st) = expansions st \<and>
   sessions (accept_cookies web st) = sessions st \<and> quits (accept_cookies web st) = quits st \<and>
   files (accept_cookies web st) = files st"
  by (simp add: accept_cookies_def print_def split: cookie_attempt.splits)

lemma scrape_products_frame:
  assumes "scrape_products web url st = Some (result, st')"
  shows "sessions st' = sessions st \<and> quits st' = quits st \<and> files st' = files st"
proof (cases "navigation (web url)")
  case (Some msg)
  with assms show ?thesis by (simp add: scrape_products_def)
next
  case None
  let ?st2 = "accept_cookies web (st\<lparr>current_url := url, expansions := 0\<rparr>)"
  from assms None obtain st3 where loop: "more_button_loop web ?st2 = Some st3" and "st' = st3"
    by (auto simp: scrape_products_def Let_def split: option.splits)
  with more_button_loop_frame [OF loop] show ?thesis
    by (simp add: accept_cookies_frame)
qed

lemma scrape_products_returns:
  assumes "load_more (web url) n \<noteq> Completes"
  shows "\<exists>result st'. scrape_products web url st = Some (result, st')"
proof (cases "navigation (web url)")
  case (Some msg)
  then show ?thesis by (simp add: scrape_products_def)
next
  case None
  let ?st2 = "accept_cookies web (st\<lparr>current_url := url, expansions := 0\<rparr>)"
  from assms have "load_more (web (current_url ?st2)) (expansions ?st2 + n) \<noteq> Completes"
    by (simp add: accept_cookies_frame)
  with more_button_loop_returns [of web ?st2 n] obtain st3
    where "more_button_loop web ?st2 = Some st3"
    by blast
  with None show ?thesis by (simp add: scrape_products_def Let_def)
qed

lemma and_then_Inl:
  "and_then m f = Some (Inl e, st') \<longleftrightarrow>
     m = Some (Inl e, st') \<or> (\<exists>x s. m = Some (Inr x, s) \<and> f x s = Some (Inl e, st'))"
  by (auto simp: and_then_def split: option.splits sum.splits)

lemma and_then_Inr:
  "and_then m f = Some (Inr y, st') \<longleftrightarrow>
     (\<exists>x s. m = Some (Inr x, s) \<and> f x s = Some (Inr y, st'))"
  by (auto simp: and_then_def split: option.splits sum.splits)

lemma and_then_returns:
  "m \<noteq> None \<Longrightarrow> (\<And>x s. f x s \<noteq> None) \<Longrightarrow> and_then m f \<noteq> None"
  by (auto simp: and_then_def split: option.splits sum.splits)

lemma and_then_raises: "and_then (Some (Inl e, st)) f = Some (Inl e, st)"
  by (simp add: and_then_def)

lemma and_then_value: "and_then (Some (Inr x, st)) f = f x st"
  by (simp add: and_then_def)

lemma and_then_keeps:
  assumes "and_then m f = Some (result, st')"
    and "\<And>r1 s1. m = Some (r1, s1) \<Longrightarrow> sessions s1 = a \<and> quits s1 = b"
    and "\<And>x s1 r2 s2. sessions s1 = a \<and> quits s1 = b \<Longrightarrow> f x s1 = Some (r2, s2) \<Longrightarrow>
           sessions s2 = a \<and> quits s2 = b"
  shows "sessions st' = a \<and> quits st' = b"
proof (cases m)
  case None
  with assms(1) show ?thesis by (simp add: and_then_def)
next
  case (Some p)
  obtain r1 s1 where p: "p = (r1, s1)" by (cases p)
  from assms(2) Some p have kept: "sessions s1 = a \<and> quits s1 = b" by simp
  show ?thesis
  proof (cases r1)
    case (Inl e)
    with assms(1) Some p kept show ?thesis by (simp add: and_then_def)
  next
    case (Inr x)
    with assms(1) Some p have "f x s1 = Some (result, st')" by (simp add: and_then_def)
    from assms(3) [OF kept this] show ?thesis .
  qed
qed

lemma scrape_products_keeps:
  "sessions s = a \<and> quits s = b \<Longrightarrow> scrape_products web url s = Some (r, s') \<Longrightarrow>
   sessions s' = a \<and> quits s' = b"
  using scrape_products_frame by fastforce

lemma save_products_to_csv_keeps:
  "sessions s = a \<and> quits s = b \<Longrightarrow> save_products_to_csv products path s = Some (r, s') \<Longrightarrow>
   sessions s' = a \<and> quits s' = b"
  using save_products_to_csv_frame by fastforce

lemma try_frame:
  assumes "get_all_products_try web st = Some (result, st')"
  shows "sessions st' = sessions st \<and> quits st' = quits st"
  using assms unfolding get_all_products_try_def
  by (elim and_then_keeps scrape_products_keeps [rotated] save_products_to_csv_keeps [rotated])
    simp_all

lemma try_terminates:
  assumes "\<forall>url\<in>set CATEGORY_URLS. \<exists>n. load_more (web url) n \<noteq> Completes"
  shows "get_all_products_try web st \<noteq> None"
proof -
  have ok: "scrape_products web url s \<noteq> None" if "url \<in> set CATEGORY_URLS" for url s
  proof -
    from assms that obtain n where "load_more (web url) n \<noteq> Completes" by blast
    with scrape_products_returns [of web url n s] show ?thesis by auto
  qed
  show ?thesis
    unfolding get_all_products_try_def
    by (intro and_then_returns ok save_products_to_csv_total) (simp_all add: CATEGORY_URLS_def)
qed

lemma scrape_all_raises:
  assumes "scrape_all web before st = Some (Inr results, st_i)"
    and "scrape_products web url st_i = Some (Inl e, st_f)"
  shows "scrape_all web (before @ url # after) st = Some (Inl e, st_f)"
  using assms
proof (induction before arbitrary: st results)
  case Nil
  then show ?case by (simp add: and_then_raises)
next
  case (Cons u before)
  from Cons.prems(1) obtain products st1 rest
    where first: "scrape_products web u st = Some (Inr products, st1)"
      and others: "scrape_all web before st1 = Some (Inr rest, st_i)"
    by (auto simp: and_then_Inr)
  from Cons.IH [OF others Cons.prems(2)] first show ?case
    by (simp add: and_then_value and_then_raises)
qed

lemma scrape_all_raises_Cons:
  "scrape_all web (url # urls) st = Some (Inl e, st') \<longleftrightarrow>
     scrape_products web url st = Some (Inl e, st') \<or>
     (\<exists>products st1. scrape_products web url st = Some (Inr products, st1) \<and>
        scrape_all web urls st1 = Some (Inl e, st'))"
  by (auto simp: and_then_Inl)

lemma try_after_scrape_all:
  "scrape_all web CATEGORY_URLS st = Some (Inl e, st') \<Longrightarrow>
   get_all_products_try web st = Some (Inl e, st')"
  unfolding CATEGORY_URLS_def get_all_products_try_def
  apply (simp only: scrape_all_raises_Cons)
  apply (elim disjE exE conjE)
        apply (simp_all add: and_then_raises and_then_value)
  done

lemma scrape_all_frame:
  "scrape_all web urls st = Some (result, st') \<Longrightarrow>
   sessions st' = sessions st \<and> quits st' = quits st \<and> files st' = files st"
proof (induction urls arbitrary: st result st')
  case Nil
  then show ?case by simp
next
  case (Cons u urls)
  show ?case
  proof (cases "scrape_products web u st")
    case None
    with Cons.prems show ?thesis by (simp add: and_then_def)
  next
    case (Some r1)
    obtain res st1 where r1: "r1 = (res, st1)" by (cases r1)
    note f1 = scrape_products_frame [OF Some [unfolded r1]]
    show ?thesis
    proof (cases res)
      case (Inl e)
      with Cons.prems Some r1 f1 show ?thesis by (simp add: and_then_def)
    next
      case (Inr products)
      show ?thesis
      proof (cases "scrape_all web urls st1")
        case None
        with Cons.prems Some r1 Inr show ?thesis by (simp add: and_then_def)
      next
        case (Some r2)
        obtain res2 st2 where r2: "r2 = (res2, st2)" by (cases r2)
        from Cons.IH [OF Some [unfolded r2]] f1 have "sessions st2 = sessions st \<and> quits st2 = quits st \<and> files st2 = files st"
          by simp
        moreover from Cons.prems \<open>scrape_products web u st = Some r1\<close> r1 Inr Some r2 have "st' = st2"
          by (cases res2) (auto simp: and_then_def)
        ultimately show ?thesis by simp
      qed
    qed
  qed
qed

section \<open>The sample sites, run\<close>

lemma urls:
  "HOME_URL = ''https://webscraper.io/test-sites/e-commerce/more/''"
  "COMPUTERS_URL = ''https://webscraper.io/test-sites/e-commerce/more/computers/''"
  "LAPTOPS_URL = ''https://webscraper.io/test-sites/e-commerce/more/computers/laptops''"
  "TABLETS_URL = ''https://webscraper.io/test-sites/e-commerce/more/computers/tablets''"
  "PHONES_URL = ''https://webscraper.io/test-sites/e-commerce/more/phones/''"
  "TOUCH_URL = ''https://webscraper.io/test-sites/e-commerce/more/phones/touch''"
  by (simp_all add: HOME_URL_def COMPUTERS_URL_def LAPTOPS_URL_def TABLETS_URL_def
      PHONES_URL_def TOUCH_URL_def BASE_URL_def urljoin_def)

lemma scrape_sample_page:
  assumes "web url = sample_page 0 cards"
  shows "scrape_products web url st =
           Some (parse_product_page (document cards),
                 st\<lparr>current_url := url, expansions := 0,
                    stdout := stdout st @ [''Timeout waiting for more button to be clickable.'']\<rparr>)"
proof -
  let ?st2 = "accept_cookies web (st\<lparr>current_url := url, expansions := 0\<rparr>)"
  have st2: "?st2 = st\<lparr>current_url := url, expansions := 0\<rparr>"
    using assms by (simp add: accept_cookies_def sample_page_def)
  have "load_more (web (current_url ?st2)) (expansions ?st2) \<noteq> Completes"
    using assms by (simp add: st2 sample_page_def)
  with more_button_loop_stop [of web ?st2]
  have "more_button_loop web ?st2 = Some (snd (more_button web ?st2))"
    by simp
  then show ?thesis
    using assms
    by (simp add: scrape_products_def st2 more_button_def sample_page_def print_def)
qed

lemma parse_page_acer:
  "parse_product_page (document [acer]) =
     Inr [\<lparr>title = ''Acer Aspire 3'', description = ''A good laptop'', price = Finite 599,
           rating = 3, num_of_reviews = 12\<rparr>]"
proof -
  have "select (document [acer]) (Class ''thumbnail'') = [acer]"
    by (simp add: thumbnails_of_document acer_def no_nested_thumbnail card_is_thumbnail)
  then show ?thesis by (simp add: parse_product_page_def parse_acer)
qed

lemma parse_page_acer_unpriced:
  "parse_product_page (document [acer, unpriced]) = Inl (ValueError ToFloat ''N/A'')"
proof -
  have "select (document [acer, unpriced]) (Class ''thumbnail'') = [acer, unpriced]"
    by (simp add: thumbnails_of_document acer_def unpriced_def no_nested_thumbnail
        card_is_thumbnail)
  then show ?thesis by (simp add: parse_product_page_def parse_acer parse_unpriced)
qed

lemma scrape_healthy:
  "scrape_products healthy_site url st =
     Some (Inr [\<lparr>title = ''Acer Aspire 3'', description = ''A good laptop'', price = Finite 599,
                 rating = 3, num_of_reviews = 12\<rparr>],
           st\<lparr>current_url := url, expansions := 0,
              stdout := stdout st @ [''Timeout waiting for more button to be clickable.'']\<rparr>)"
  using scrape_sample_page [of healthy_site url "[acer]" st]
  by (simp add: healthy_site_def parse_page_acer)

lemma scrape_broken_home:
  "scrape_products broken_site HOME_URL st =
     Some (Inr [\<lparr>title = ''Acer Aspire 3'', description = ''A good laptop'', price = Finite 599,
                 rating = 3, num_of_reviews = 12\<rparr>],
           st\<lparr>current_url := HOME_URL, expansions := 0,
              stdout := stdout st @ [''Timeout waiting for more button to be clickable.'']\<rparr>)"
proof -
  have "broken_site HOME_URL = sample_page 0 [acer]"
    by (simp add: broken_site_def urls)
  with scrape_sample_page [of broken_site HOME_URL "[acer]" st] show ?thesis
    by (simp add: parse_page_acer)
qed

lemma scrape_broken_computers:
  "scrape_products broken_site COMPUTERS_URL st =
     Some (Inl (ValueError ToFloat ''N/A''),
           st\<lparr>current_url := COMPUTERS_URL, expansions := 0,
              stdout := stdout st @ [''Timeout waiting for more button to be clickable.'']\<rparr>)"
proof -
  have "broken_site COMPUTERS_URL = sample_page 0 [acer, unpriced]"
    by (simp add: broken_site_def)
  with scrape_sample_page [of broken_site COMPUTERS_URL "[acer, unpriced]" st] show ?thesis
    by (simp add: parse_page_acer_unpriced)
qed

lemma run_healthy: "\<exists>st'. get_all_products healthy_site initial_state = Some (Inr (), st')"
  by (simp add: get_all_products_def get_all_products_try_def scrape_healthy and_then_value
      save_products_to_csv_def isfile_def open_append_def write_rows_def initial_state_def
      Let_def)

lemma run_broken:
  "get_all_products broken_site initial_state =
     Some (Inl (ValueError ToFloat ''N/A''),
           initial_state\<lparr>current_url := COMPUTERS_URL, sessions := 1, quits := 1,
             stdout := [''Timeout waiting for more button to be clickable.'',
                        ''Timeout waiting for more button to be clickable.'']\<rparr>)"
  by (simp add: get_all_products_def get_all_products_try_def scrape_broken_home
      scrape_broken_computers and_then_value and_then_raises initial_state_def Let_def)

section \<open>The Pagination Driver\<close>

text \<open>
  Claim C3. Let the load-more control of the page shown succeed on the next \<open>n\<close> calls of
  \<^verbatim>\<open>more_button\<close> and fail on the one after. Then the loop \<^verbatim>\<open>while more_button(driver)\<close>
  ends, and it ends in the state that differs from the one it started in by exactly \<open>n\<close>
  further expansions and one printed line, the line of the one call that failed.
\<close>

theorem expansion_loop_runs_n_times:
  assumes "\<forall>i<n. load_more (web (current_url st)) (expansions st + i) = Completes"
    and "load_more (web (current_url st)) (expansions st + n) \<noteq> Completes"
  shows "\<exists>line. more_button_loop web st =
           Some (st\<lparr>expansions := expansions st + n, stdout := stdout st @ [line]\<rparr>)"
  using assms by (rule more_button_loop_runs)

text \<open>A page whose control works twice and is gone the third time.\<close>

theorem expansion_loop_runs_n_times_witness:
  "load_more (scrolling_site LAPTOPS_URL) 0 = Completes \<and>
   load_more (scrolling_site LAPTOPS_URL) 1 = Completes \<and>
   load_more (scrolling_site LAPTOPS_URL) 2 = RaisesTimeout \<and>
   (\<exists>line. more_button_loop scrolling_site (initial_state\<lparr>current_url := LAPTOPS_URL\<rparr>) =
      Some (initial_state\<lparr>current_url := LAPTOPS_URL, expansions := 2, stdout := [line]\<rparr>))"
proof -
  let ?st = "initial_state\<lparr>current_url := LAPTOPS_URL\<rparr>"
  have succeed: "\<forall>i<2. load_more (scrolling_site (current_url ?st)) (expansions ?st + i) = Completes"
    by (simp add: scrolling_site_def sample_page_def initial_state_def)
  have fail: "load_more (scrolling_site (current_url ?st)) (expansions ?st + 2) \<noteq> Completes"
    by (simp add: scrolling_site_def sample_page_def initial_state_def)
  have start: "expansions ?st = 0" "stdout ?st = []"
    by (simp_all add: initial_state_def)
  from expansion_loop_runs_n_times [of 2 scrolling_site ?st] succeed fail
  have "\<exists>line. more_button_loop scrolling_site ?st =
      Some (?st\<lparr>expansions := 2, stdout := [line]\<rparr>)"
    by (simp add: start numeral_2_eq_2)
  then show ?thesis by (simp add: scrolling_site_def sample_page_def)
qed

section \<open>The Catalog Runner\<close>

text \<open>
  Claim C9. Every call of \<^verbatim>\<open>get_all_products\<close> that ends, whether it returns or raises,
  has created one browser session and has quit the browser once; and the call does end
  if on each of the six category pages the load-more control fails at some point.
\<close>

theorem browser_quit_once:
  "(get_all_products web st = Some (result, st') \<longrightarrow>
      sessions st' = Suc (sessions st) \<and> quits st' = Suc (quits st)) \<and>
   ((\<forall>url\<in>set CATEGORY_URLS. \<exists>n. load_more (web url) n \<noteq> Completes) \<longrightarrow>
      (\<exists>result st'. get_all_products web st = Some (result, st')))"
proof -
  let ?st0 = "st\<lparr>sessions := Suc (sessions st)\<rparr>"
  have "sessions st' = Suc (sessions st) \<and> quits st' = Suc (quits st)"
    if "get_all_products web st = Some (result, st')"
  proof -
    from that obtain st1 where body: "get_all_products_try web ?st0 = Some (result, st1)"
      and "st' = st1\<lparr>quits := Suc (quits st1)\<rparr>"
      by (auto simp: get_all_products_def Let_def split: option.splits)
    with try_frame [OF body] show ?thesis by simp
  qed
  moreover have "\<exists>result st'. get_all_products web st = Some (result, st')"
    if "\<forall>url\<in>set CATEGORY_URLS. \<exists>n. load_more (web url) n \<noteq> Completes"
    using try_terminates [OF that, of ?st0]
    by (auto simp: get_all_products_def Let_def)
  ultimately show ?thesis by blast
qed

text \<open>A run that raises in its second category, and a run that returns.\<close>

theorem browser_quit_once_witness:
  "(\<exists>st'. get_all_products broken_site initial_state = Some (Inl (ValueError ToFloat ''N/A''), st') \<and>
          sessions st' = 1 \<and> quits st' = 1) \<and>
   (\<exists>st'. get_all_products healthy_site initial_state = Some (Inr (), st') \<and>
          sessions st' = 1 \<and> quits st' = 1)"
proof -
  from run_healthy obtain st' where healthy:
    "get_all_products healthy_site initial_state = Some (Inr (), st')" ..
  with browser_quit_once [of healthy_site initial_state "Inr ()" st']
  have "sessions st' = 1 \<and> quits st' = 1" by (simp add: initial_state_def)
  with healthy have second: "\<exists>st'. get_all_products healthy_site initial_state = Some (Inr (), st') \<and>
      sessions st' = 1 \<and> quits st' = 1"
    by blast
  let ?final = "initial_state\<lparr>current_url := COMPUTERS_URL, sessions := 1, quits := 1,
             stdout := [''Timeout waiting for more button to be clickable.'',
                        ''Timeout waiting for more button to be clickable.'']\<rparr>"
  from run_broken browser_quit_once [of broken_site initial_state "Inl (ValueError ToFloat ''N/A'')" ?final]
  have "sessions ?final = 1 \<and> quits ?final = 1" by (simp add: initial_state_def)
  with run_broken have "\<exists>st'. get_all_products broken_site initial_state =
      Some (Inl (ValueError ToFloat ''N/A''), st') \<and> sessions st' = 1 \<and> quits st' = 1"
    by blast
  with second show ?thesis by blast
qed

text \<open>
  Claim C1, as the code has it. Let the extraction of the first \<open>i\<close> categories return,
  and let the extraction of the next one raise an exception. Then \<^verbatim>\<open>get_all_products\<close>
  ends by raising that exception, after the browser has been quit, and no file has been
  written: the files are what they were before the run.
\<close>

theorem failed_job_writes_nothing:
  assumes "i < length CATEGORY_URLS"
    and "scrape_all web (take i CATEGORY_URLS) (st\<lparr>sessions := Suc (sessions st)\<rparr>) =
           Some (Inr results, st_i)"
    and "scrape_products web (CATEGORY_URLS ! i) st_i = Some (Inl e, st_f)"
  shows "get_all_products web st = Some (Inl e, st_f\<lparr>quits := Suc (quits st_f)\<rparr>) \<and>
         files (st_f\<lparr>quits := Suc (quits st_f)\<rparr>) = files st"
proof -
  let ?st0 = "st\<lparr>sessions := Suc (sessions st)\<rparr>"
  from assms(1) have "CATEGORY_URLS =
      take i CATEGORY_URLS @ CATEGORY_URLS ! i # drop (Suc i) CATEGORY_URLS"
    by (rule id_take_nth_drop)
  with scrape_all_raises [OF assms(2) assms(3), of "drop (Suc i) CATEGORY_URLS"]
  have "scrape_all web CATEGORY_URLS ?st0 = Some (Inl e, st_f)" by simp
  then have body: "get_all_products_try web ?st0 = Some (Inl e, st_f)"
    by (rule try_after_scrape_all)
  then have run: "get_all_products web st = Some (Inl e, st_f\<lparr>quits := Suc (quits st_f)\<rparr>)"
    by (simp add: get_all_products_def)
  from scrape_all_frame [OF assms(2)] scrape_products_frame [OF assms(3)]
  have "files st_f = files st" by simp
  with run show ?thesis by simp
qed

text \<open>
  The site whose second category holds a card without a price: the home category is
  extracted, the computers category raises, and the run raises with no file written.
\<close>

theorem failed_job_writes_nothing_witness:
  "scrape_all broken_site (take 1 CATEGORY_URLS) (initial_state\<lparr>sessions := 1\<rparr>) =
     Some (Inr [[\<lparr>title = ''Acer Aspire 3'', description = ''A good laptop'', price = Finite 599,
                  rating = 3, num_of_reviews = 12\<rparr>]],
           initial_state\<lparr>current_url := HOME_URL, sessions := 1,
             stdout := [''Timeout waiting for more button to be clickable.'']\<rparr>) \<and>
   get_all_products broken_site initial_state =
     Some (Inl (ValueError ToFloat ''N/A''),
           initial_state\<lparr>current_url := COMPUTERS_URL, sessions := 1, quits := 1,
             stdout := [''Timeout waiting for more button to be clickable.'',
                        ''Timeout waiting for more button to be clickable.'']\<rparr>) \<and>
   files (initial_state\<lparr>current_url := COMPUTERS_URL, sessions := 1, quits := 1,
             stdout := [''Timeout waiting for more button to be clickable.'',
                        ''Timeout waiting for more button to be clickable.'']\<rparr>) = Map.empty"
proof -
  let ?st1 = "initial_state\<lparr>current_url := HOME_URL, sessions := 1,
             stdout := [''Timeout waiting for more button to be clickable.'']\<rparr>"
  let ?st2 = "?st1\<lparr>current_url := COMPUTERS_URL, expansions := 0,
             stdout := stdout ?st1 @ [''Timeout waiting for more button to be clickable.'']\<rparr>"
  have before: "scrape_all broken_site (take 1 CATEGORY_URLS)
      (initial_state\<lparr>sessions := Suc (sessions initial_state)\<rparr>) =
     Some (Inr [[\<lparr>title = ''Acer Aspire 3'', description = ''A good laptop'', price = Finite 599,
                  rating = 3, num_of_reviews = 12\<rparr>]], ?st1)"
    by (simp add: CATEGORY_URLS_def scrape_broken_home and_then_value initial_state_def)
  have failing: "scrape_products broken_site (CATEGORY_URLS ! 1) ?st1 =
      Some (Inl (ValueError ToFloat ''N/A''), ?st2)"
    by (simp add: CATEGORY_URLS_def scrape_broken_computers)
  have i: "1 < length CATEGORY_URLS"
    by (simp add: CATEGORY_URLS_def)
  from failed_job_writes_nothing [OF i before failing] before
  show ?thesis by (simp add: initial_state_def)
qed

text \<open>
  Against claim C1 as stated: on that site the first job returns its products and the
  second job raises, and when the run has ended the destination of the first job,
  \<^verbatim>\<open>home.csv\<close>, has not been written.
\<close>

theorem first_destination_not_written:
  "scrape_products broken_site HOME_URL (initial_state\<lparr>sessions := 1\<rparr>) =
     Some (Inr [\<lparr>title = ''Acer Aspire 3'', description = ''A good laptop'', price = Finite 599,
                 rating = 3, num_of_reviews = 12\<rparr>],
           initial_state\<lparr>current_url := HOME_URL, sessions := 1,
             stdout := [''Timeout waiting for more button to be clickable.'']\<rparr>) \<and>
   scrape_products broken_site COMPUTERS_URL
       (initial_state\<lparr>current_url := HOME_URL, sessions := 1,
          stdout := [''Timeout waiting for more button to be clickable.'']\<rparr>) =
     Some (Inl (ValueError ToFloat ''N/A''),
           initial_state\<lparr>current_url := COMPUTERS_URL, sessions := 1,
             stdout := [''Timeout waiting for more button to be clickable.'',
                        ''Timeout waiting for more button to be clickable.'']\<rparr>) \<and>
   get_all_products broken_site initial_state =
     Some (Inl (ValueError ToFloat ''N/A''),
           initial_state\<lparr>current_url := COMPUTERS_URL, sessions := 1, quits := 1,
             stdout := [''Timeout waiting for more button to be clickable.'',
                        ''Timeout waiting for more button to be clickable.'']\<rparr>) \<and>
   files (initial_state\<lparr>current_url := COMPUTERS_URL, sessions := 1, quits := 1,
             stdout := [''Timeout waiting for more button to be clickable.'',
                        ''Timeout waiting for more button to be clickable.'']\<rparr>) ''home.csv'' = None"
proof -
  have first: "scrape_products broken_site HOME_URL (initial_state\<lparr>sessions := 1\<rparr>) =
     Some (Inr [\<lparr>title = ''Acer Aspire 3'', description = ''A good laptop'', price = Finite 599,
                 rating = 3, num_of_reviews = 12\<rparr>],
           initial_state\<lparr>current_url := HOME_URL, sessions := 1,
             stdout := [''Timeout waiting for more button to be clickable.'']\<rparr>)"
    by (simp add: scrape_broken_home initial_state_def)
  have second: "scrape_products broken_site COMPUTERS_URL
       (initial_state\<lparr>current_url := HOME_URL, sessions := 1,
          stdout := [''Timeout waiting for more button to be clickable.'']\<rparr>) =
     Some (Inl (ValueError ToFloat ''N/A''),
           initial_state\<lparr>current_url := COMPUTERS_URL, sessions := 1,
             stdout := [''Timeout waiting for more button to be clickable.'',
                        ''Timeout waiting for more button to be clickable.'']\<rparr>)"
    by (simp add: scrape_broken_computers initial_state_def)
  have unwritten: "files (initial_state\<lparr>current_url := COMPUTERS_URL, sessions := 1, quits := 1,
             stdout := [''Timeout waiting for more button to be clickable.'',
                        ''Timeout waiting for more button to be clickable.'']\<rparr>) ''home.csv'' = None"
    by (simp add: initial_state_def)
  from first second run_broken unwritten show ?thesis by blast
qed

end
